theory Spec2Isabelle
  imports Main "HOL-Library.Word"
begin

section \<open>SoundFlow FFmpeg codec wrapper: data model\<close>

text \<open>
  The theory embeds \<^verbatim>\<open>src/Native/ffmpeg-codec/soundflow-ffmpeg.c\<close>. The wrapper
  drives the FFmpeg libraries, which are not part of the repository: their state is
  an abstract type \<open>'e\<close> and every library call goes through one engine function,
  so the wrapper's own control flow is what the definitions below contain.
\<close>

subsection \<open>Enumerations of the public header\<close>

datatype SFSampleFormat =
    SF_SAMPLE_FORMAT_UNKNOWN
  | SF_SAMPLE_FORMAT_U8
  | SF_SAMPLE_FORMAT_S16
  | SF_SAMPLE_FORMAT_S24
  | SF_SAMPLE_FORMAT_S32
  | SF_SAMPLE_FORMAT_F32

datatype SF_Result =
    SF_RESULT_SUCCESS
  | SF_RESULT_ERROR_INVALID_ARGS
  | SF_RESULT_ERROR_ALLOCATION_FAILED
  | SF_RESULT_DECODER_ERROR_OPEN_INPUT
  | SF_RESULT_DECODER_ERROR_FIND_STREAM_INFO
  | SF_RESULT_DECODER_ERROR_NO_AUDIO_STREAM
  | SF_RESULT_DECODER_ERROR_CODEC_NOT_FOUND
  | SF_RESULT_DECODER_ERROR_CODEC_CONTEXT_ALLOC
  | SF_RESULT_DECODER_ERROR_CODEC_OPEN_FAILED
  | SF_RESULT_DECODER_ERROR_INVALID_TARGET_FORMAT
  | SF_RESULT_DECODER_ERROR_RESAMPLER_INIT_FAILED
  | SF_RESULT_DECODER_ERROR_PACKET_FRAME_ALLOC
  | SF_RESULT_DECODER_ERROR_SEEK_FAILED
  | SF_RESULT_DECODER_ERROR_DECODING_FAILED
  | SF_RESULT_ENCODER_ERROR_FORMAT_NOT_FOUND
  | SF_RESULT_ENCODER_ERROR_CODEC_NOT_FOUND
  | SF_RESULT_ENCODER_ERROR_STREAM_ALLOC
  | SF_RESULT_ENCODER_ERROR_CODEC_CONTEXT_ALLOC
  | SF_RESULT_ENCODER_ERROR_CODEC_OPEN_FAILED
  | SF_RESULT_ENCODER_ERROR_CONTEXT_PARAMS
  | SF_RESULT_ENCODER_ERROR_WRITE_HEADER
  | SF_RESULT_ENCODER_ERROR_INVALID_INPUT_FORMAT
  | SF_RESULT_ENCODER_ERROR_RESAMPLER_INIT_FAILED
  | SF_RESULT_ENCODER_ERROR_PACKET_FRAME_ALLOC
  | SF_RESULT_ENCODER_ERROR_ENCODING_FAILED
  | SF_RESULT_ENCODER_ERROR_WRITE_FAILED

subsection \<open>Declarations taken from the engine's headers\<close>

text \<open>
  Modelled from the spec: the engine's native sample-format enumeration
  (\<^verbatim>\<open>enum AVSampleFormat\<close> of libavutil, not in this repository): interleaved and
  planar variants of 8, 16, 32 and 64 bit integers, float and double.
\<close>

datatype AVSampleFormat =
    AV_SAMPLE_FMT_NONE
  | AV_SAMPLE_FMT_U8
  | AV_SAMPLE_FMT_S16
  | AV_SAMPLE_FMT_S32
  | AV_SAMPLE_FMT_FLT
  | AV_SAMPLE_FMT_DBL
  | AV_SAMPLE_FMT_U8P
  | AV_SAMPLE_FMT_S16P
  | AV_SAMPLE_FMT_S32P
  | AV_SAMPLE_FMT_FLTP
  | AV_SAMPLE_FMT_DBLP
  | AV_SAMPLE_FMT_S64
  | AV_SAMPLE_FMT_S64P
  | AV_SAMPLE_FMT_NB

text \<open>
  Modelled from the spec: the engine's error codes (macros of libavutil and of
  \<^verbatim>\<open>errno.h\<close>, not in this repository). \<^verbatim>\<open>AVERROR(e)\<close> negates a POSIX error
  number; \<^verbatim>\<open>AVERROR_EOF\<close> is the negated tag \<^verbatim>\<open>'E','O','F',' '\<close>.
\<close>

definition AVERROR :: "int \<Rightarrow> int" where
  "AVERROR e = - e"

definition EIO :: int where
  "EIO = 5"

definition EAGAIN :: int where
  "EAGAIN = 11"

definition ENOMEM :: int where
  "ENOMEM = 12"

definition EINVAL :: int where
  "EINVAL = 22"

definition AVERROR_EOF :: int where
  "AVERROR_EOF = - 541478725"

definition INT64_MIN :: int where
  "INT64_MIN = - (2 ^ 63)"

definition INT64_MAX :: int where
  "INT64_MAX = 2 ^ 63 - 1"

definition AV_NOPTS_VALUE :: int where
  "AV_NOPTS_VALUE = INT64_MIN"

definition AV_TIME_BASE :: int where
  "AV_TIME_BASE = 1000000"

text \<open>
  Modelled from the spec: the engine's \<^verbatim>\<open>av_rescale(a, b, c)\<close> (libavutil, not in
  this repository), which computes \<open>a * b / c\<close> rounded to the nearest integer, halves
  away from zero, and returns \<^verbatim>\<open>INT64_MIN\<close> for \<open>c \<le> 0\<close>, \<open>b < 0\<close> or a result that
  does not fit 64 bits.
\<close>

definition av_rescale :: "int \<Rightarrow> int \<Rightarrow> int \<Rightarrow> int" where
  "av_rescale a b c =
     (if c \<le> 0 \<or> b < 0 then INT64_MIN
      else let m = (\<bar>max a (- INT64_MAX)\<bar> * b + c div 2) div c
           in if INT64_MAX < m then INT64_MIN
              else if a < 0 then - m else m)"

text \<open>
  Modelled from the spec: the engine's \<^verbatim>\<open>av_rescale_q(a, bq, cq)\<close>, which rescales
  \<open>a\<close> from the time base \<open>bq\<close> to the time base \<open>cq\<close> (rationals as numerator and
  denominator): \<open>a * bq / cq\<close>.
\<close>

definition av_rescale_q :: "int \<Rightarrow> int \<times> int \<Rightarrow> int \<times> int \<Rightarrow> int" where
  "av_rescale_q a bq cq = av_rescale a (fst bq * snd cq) (fst cq * snd bq)"

text \<open>
  Modelled from the spec: the engine's \<^verbatim>\<open>av_get_bytes_per_sample\<close>: the width of
  one sample, 0 for an invalid format.
\<close>

fun av_get_bytes_per_sample :: "AVSampleFormat \<Rightarrow> int" where
  "av_get_bytes_per_sample AV_SAMPLE_FMT_U8 = 1"
| "av_get_bytes_per_sample AV_SAMPLE_FMT_U8P = 1"
| "av_get_bytes_per_sample AV_SAMPLE_FMT_S16 = 2"
| "av_get_bytes_per_sample AV_SAMPLE_FMT_S16P = 2"
| "av_get_bytes_per_sample AV_SAMPLE_FMT_S32 = 4"
| "av_get_bytes_per_sample AV_SAMPLE_FMT_S32P = 4"
| "av_get_bytes_per_sample AV_SAMPLE_FMT_FLT = 4"
| "av_get_bytes_per_sample AV_SAMPLE_FMT_FLTP = 4"
| "av_get_bytes_per_sample AV_SAMPLE_FMT_DBL = 8"
| "av_get_bytes_per_sample AV_SAMPLE_FMT_DBLP = 8"
| "av_get_bytes_per_sample AV_SAMPLE_FMT_S64 = 8"
| "av_get_bytes_per_sample AV_SAMPLE_FMT_S64P = 8"
| "av_get_bytes_per_sample _ = 0"

subsection \<open>C integer conversions\<close>

text \<open>
  \<^verbatim>\<open>(int)x\<close> on a 64-bit value and 32-bit \<^verbatim>\<open>int\<close> arithmetic keep the low 32 bits,
  read as two's complement; \<^verbatim>\<open>int64_t\<close> arithmetic keeps the low 64 bits.
\<close>

definition c_int :: "int \<Rightarrow> int" where
  "c_int x = sint (word_of_int x :: 32 word)"

definition c_int64 :: "int \<Rightarrow> int" where
  "c_int64 x = sint (word_of_int x :: 64 word)"

subsection \<open>Sample format translator\<close>

fun to_ffmpeg_sample_format :: "SFSampleFormat \<Rightarrow> AVSampleFormat" where
  "to_ffmpeg_sample_format SF_SAMPLE_FORMAT_U8 = AV_SAMPLE_FMT_U8"
| "to_ffmpeg_sample_format SF_SAMPLE_FORMAT_S16 = AV_SAMPLE_FMT_S16"
| "to_ffmpeg_sample_format SF_SAMPLE_FORMAT_S24 = AV_SAMPLE_FMT_S32"
| "to_ffmpeg_sample_format SF_SAMPLE_FORMAT_S32 = AV_SAMPLE_FMT_S32"
| "to_ffmpeg_sample_format SF_SAMPLE_FORMAT_F32 = AV_SAMPLE_FMT_FLT"
| "to_ffmpeg_sample_format _ = AV_SAMPLE_FMT_NONE"

fun from_ffmpeg_sample_format :: "AVSampleFormat \<Rightarrow> SFSampleFormat" where
  "from_ffmpeg_sample_format AV_SAMPLE_FMT_U8 = SF_SAMPLE_FORMAT_U8"
| "from_ffmpeg_sample_format AV_SAMPLE_FMT_U8P = SF_SAMPLE_FORMAT_U8"
| "from_ffmpeg_sample_format AV_SAMPLE_FMT_S16 = SF_SAMPLE_FORMAT_S16"
| "from_ffmpeg_sample_format AV_SAMPLE_FMT_S16P = SF_SAMPLE_FORMAT_S16"
| "from_ffmpeg_sample_format AV_SAMPLE_FMT_S32 = SF_SAMPLE_FORMAT_S32"
| "from_ffmpeg_sample_format AV_SAMPLE_FMT_S32P = SF_SAMPLE_FORMAT_S32"
| "from_ffmpeg_sample_format AV_SAMPLE_FMT_FLT = SF_SAMPLE_FORMAT_F32"
| "from_ffmpeg_sample_format AV_SAMPLE_FMT_FLTP = SF_SAMPLE_FORMAT_F32"
| "from_ffmpeg_sample_format _ = SF_SAMPLE_FORMAT_UNKNOWN"

subsection \<open>Stream length\<close>

text \<open>
  What \<^verbatim>\<open>sf_decoder_get_length_in_pcm_frames\<close> reads through the decoder handle:
  whether the demuxer context exists, the selected stream index, the fields of
  \<^verbatim>\<open>streams[stream_index]\<close> and the container's duration.
\<close>

record length_view =
  has_format_ctx :: bool
  lv_stream_index :: int
  stream_duration :: int
  stream_time_base :: "int \<times> int"
  stream_sample_rate :: int
  format_duration :: int

definition sf_decoder_get_length_in_pcm_frames :: "length_view option \<Rightarrow> int" where
  "sf_decoder_get_length_in_pcm_frames decoder =
     (case decoder of
        None \<Rightarrow> - 1
      | Some d \<Rightarrow>
          if \<not> has_format_ctx d \<or> lv_stream_index d < 0 then - 1
          else if stream_duration d \<noteq> AV_NOPTS_VALUE then
            av_rescale_q (stream_duration d) (stream_time_base d) (1, stream_sample_rate d)
          else if format_duration d \<noteq> AV_NOPTS_VALUE then
            av_rescale (format_duration d) AV_TIME_BASE (stream_sample_rate d)
          else 0)"

section \<open>The engine interface\<close>

text \<open>
  Every call the wrapper makes into the engine, with the arguments the wrapper
  chooses. Arguments that are engine objects (contexts, the reusable packet and frame)
  live in the engine state and are not repeated here. \<open>SwrConvert off n inp\<close> is the
  decoder's \<^verbatim>\<open>swr_convert\<close>: \<open>off\<close> is the byte offset of the output cursor from
  \<^verbatim>\<open>pFramesOut\<close>, \<open>n\<close> the output capacity in frames, \<open>inp\<close> tells whether the
  decoded frame is passed as input (\<open>False\<close> is the \<^verbatim>\<open>NULL, 0\<close> flush).
  \<open>AvcodecSendPacket False\<close> and \<open>AvcodecSendFrame None\<close> are the \<^verbatim>\<open>NULL\<close>
  submissions that start draining. \<open>SwrAllocSetOpts2\<close> carries the output format
  and rate and the input format and rate. \<open>SwrConvertIn n m\<close> is the encoder's
  \<^verbatim>\<open>swr_convert\<close> with output capacity \<open>n\<close> and \<open>m\<close> input frames. A store into a
  field of an engine object is a call as well: \<open>StreamDiscardAll\<close>,
  \<open>CodecSetSampleRate\<close> (sample rate and time base), \<open>CodecSetSampleFmt\<close> (the codec's
  first offered format), \<open>CodecSetGlobalHeader\<close>, \<open>PacketSetStreamIndex\<close>.
\<close>

record AVFrame =
  nb_samples :: int
  pts :: int

datatype av_call =
    AvLogSetLevel
  | AvformatAllocContext
  | AvMalloc
  | AvFree
  | AvformatFreeContext
  | AvioAllocContext bool
  | AvDictSet string string
  | AvformatOpenInput
  | AvformatFindStreamInfo
  | AvFindBestStream
  | StreamDiscardAll nat
  | AvcodecFindDecoder
  | AvcodecAllocContext3
  | AvcodecParametersToContext
  | AvcodecOpen2
  | SwrAllocSetOpts2 AVSampleFormat int AVSampleFormat int
  | SwrInit
  | AvPacketAlloc
  | AvFrameAlloc
  | AvcodecReceiveFrame
  | SwrConvert int int bool
  | AvFrameUnref
  | AvPacketUnref
  | AvReadFrame
  | AvcodecSendPacket bool
  | AvGuessFormat string
  | AvformatAllocOutputContext2
  | AvcodecFindEncoder
  | AvformatNewStream
  | AvChannelLayoutDefault int
  | AvChannelLayoutCopy
  | CodecSetSampleRate int
  | CodecSetSampleFmt
  | CodecSetGlobalHeader
  | AvcodecParametersFromContext
  | AvformatWriteHeader
  | AvFrameGetBuffer int
  | SwrConvertIn int int
  | AvcodecSendFrame "AVFrame option"
  | AvFrameFree
  | AvcodecReceivePacket
  | AvPacketRescaleTs
  | PacketSetStreamIndex
  | AvInterleavedWriteFrame
  | AvWriteTrailer
  | AvcodecFreeContext
  | AvioFlush
  | AvFreep
  | AvioContextFree
  | AvPacketFree
  | SwrFree

text \<open>
  The engine: a transition function giving each call its return value and the next
  engine state, and the fields of engine objects that the wrapper reads. A call that
  returns a pointer returns 0 for \<^verbatim>\<open>NULL\<close>; \<open>SwrAllocSetOpts2\<close> returns 0 when it
  leaves \<^verbatim>\<open>swr_ctx\<close> \<^verbatim>\<open>NULL\<close>.
\<close>

record 'e engine =
  av_exec :: "av_call \<Rightarrow> 'e \<Rightarrow> int \<times> 'e"
  nb_streams :: "'e \<Rightarrow> nat"
  packet_stream_index :: "'e \<Rightarrow> int"
  codec_nb_channels :: "'e \<Rightarrow> int"
  codec_sample_rate :: "'e \<Rightarrow> int"
  codec_sample_fmt :: "'e \<Rightarrow> AVSampleFormat"
  codec_has_sample_fmts :: "'e \<Rightarrow> bool"
  oformat_global_header :: "'e \<Rightarrow> bool"

text \<open>
  The engine state together with the log of the calls made so far and their return
  values. The log is not program state: it records what the wrapper did.
\<close>

type_synonym 'e world = "'e \<times> (av_call \<times> int) list"

definition av :: "'e engine \<Rightarrow> av_call \<Rightarrow> 'e world \<Rightarrow> int \<times> 'e world" where
  "av eng c w = (case av_exec eng c (fst w) of (r, e') \<Rightarrow> (r, (e', snd w @ [(c, r)])))"

section \<open>Decoder\<close>

text \<open>
  The fields of \<^verbatim>\<open>struct SF_Decoder\<close> that are not engine objects. A handle is an
  \<open>SF_Decoder option\<close>, \<open>None\<close> being \<^verbatim>\<open>NULL\<close>.
\<close>

record SF_Decoder =
  stream_index :: int
  target_bytes_per_sample :: int
  target_channels :: int

definition c_uint32 :: "int \<Rightarrow> int" where
  "c_uint32 x = x mod 2 ^ 32"

text \<open>The loop of \<^verbatim>\<open>sf_decoder_init\<close> that discards every stream but the selected one.\<close>

fun discard_others :: "'e engine \<Rightarrow> int \<Rightarrow> nat list \<Rightarrow> 'e world \<Rightarrow> 'e world" where
  "discard_others eng sidx [] w = w"
| "discard_others eng sidx (i # is) w =
     (if int i \<noteq> sidx then discard_others eng sidx is (snd (av eng (StreamDiscardAll i) w))
      else discard_others eng sidx is w)"

text \<open>
  \<^verbatim>\<open>sf_decoder_init\<close>. The result is the return code, the decoder fields, the three
  out-parameters (\<open>None\<close> while they have not been stored) and the engine.
\<close>

definition sf_decoder_init ::
  "'e engine \<Rightarrow> SF_Decoder option \<Rightarrow> SFSampleFormat \<Rightarrow> 'e \<Rightarrow>
     SF_Result \<times> SF_Decoder option \<times> (SFSampleFormat \<times> int \<times> int) option \<times> 'e world" where
  "sf_decoder_init eng decoder target_format e =
     (case decoder of
        None \<Rightarrow> (SF_RESULT_ERROR_INVALID_ARGS, None, None, (e, []))
      | Some d \<Rightarrow>
     let (u, w1) = av eng AvLogSetLevel (e, []);
         (format_ctx, w2) = av eng AvformatAllocContext w1 in
     if format_ctx = 0 then (SF_RESULT_ERROR_ALLOCATION_FAILED, Some d, None, w2) else
     let (io_buffer, w3) = av eng AvMalloc w2 in
     if io_buffer = 0 then
       (SF_RESULT_ERROR_ALLOCATION_FAILED, Some d, None, snd (av eng AvformatFreeContext w3)) else
     let (avio_ctx, w4) = av eng (AvioAllocContext False) w3 in
     if avio_ctx = 0 then
       (SF_RESULT_ERROR_ALLOCATION_FAILED, Some d, None,
        snd (av eng AvformatFreeContext (snd (av eng AvFree w4)))) else
     let (u, w5) = av eng (AvDictSet ''scan_all_pmts'' ''0'') w4;
         (u, w6) = av eng (AvDictSet ''probesize'' ''5000000'') w5;
         (u, w7) = av eng (AvDictSet ''analyzeduration'' ''10000000'') w6;
         (opened, w8) = av eng AvformatOpenInput w7 in
     if opened \<noteq> 0 then (SF_RESULT_DECODER_ERROR_OPEN_INPUT, Some d, None, w8) else
     let (info, w9) = av eng AvformatFindStreamInfo w8 in
     if info < 0 then (SF_RESULT_DECODER_ERROR_FIND_STREAM_INFO, Some d, None, w9) else
     let (best, w10) = av eng AvFindBestStream w9;
         d1 = d\<lparr>stream_index := best\<rparr> in
     if best < 0 then (SF_RESULT_DECODER_ERROR_NO_AUDIO_STREAM, Some d1, None, w10) else
     let w11 = discard_others eng best [0 ..< nb_streams eng (fst w10)] w10;
         (codec, w12) = av eng AvcodecFindDecoder w11 in
     if codec = 0 then (SF_RESULT_DECODER_ERROR_CODEC_NOT_FOUND, Some d1, None, w12) else
     let (codec_ctx, w13) = av eng AvcodecAllocContext3 w12 in
     if codec_ctx = 0 then (SF_RESULT_DECODER_ERROR_CODEC_CONTEXT_ALLOC, Some d1, None, w13) else
     let (u, w14) = av eng AvcodecParametersToContext w13;
         (codec_open, w15) = av eng AvcodecOpen2 w14 in
     if codec_open < 0 then (SF_RESULT_DECODER_ERROR_CODEC_OPEN_FAILED, Some d1, None, w15) else
     let outs = Some (from_ffmpeg_sample_format (codec_sample_fmt eng (fst w15)),
                      c_uint32 (codec_nb_channels eng (fst w15)),
                      c_uint32 (codec_sample_rate eng (fst w15)));
         target_av_format = to_ffmpeg_sample_format target_format in
     if target_av_format = AV_SAMPLE_FMT_NONE then
       (SF_RESULT_DECODER_ERROR_INVALID_TARGET_FORMAT, Some d1, outs, w15) else
     let d2 = d1\<lparr>target_bytes_per_sample := av_get_bytes_per_sample target_av_format,
                 target_channels := codec_nb_channels eng (fst w15)\<rparr>;
         (swr_ctx, w16) =
           av eng (SwrAllocSetOpts2 target_av_format (codec_sample_rate eng (fst w15))
                     (codec_sample_fmt eng (fst w15)) (codec_sample_rate eng (fst w15))) w15 in
     if swr_ctx = 0 then (SF_RESULT_DECODER_ERROR_RESAMPLER_INIT_FAILED, Some d2, outs, w16) else
     let (swr_ok, w17) = av eng SwrInit w16 in
     if swr_ok < 0 then (SF_RESULT_DECODER_ERROR_RESAMPLER_INIT_FAILED, Some d2, outs, w17) else
     let (packet, w18) = av eng AvPacketAlloc w17;
         (frame, w19) = av eng AvFrameAlloc w18 in
     if packet = 0 \<or> frame = 0 then (SF_RESULT_DECODER_ERROR_PACKET_FRAME_ALLOC, Some d2, outs, w19)
     else (SF_RESULT_SUCCESS, Some d2, outs, w19))"

text \<open>
  The \<^verbatim>\<open>do ... while\<close> that drains the resampler once the codec has reported end of
  stream. Each round that continues has added at least one frame and is still short of
  \<open>frameCount\<close>, so the loop ends.
\<close>

function drain_resampler ::
  "'e engine \<Rightarrow> SF_Decoder \<Rightarrow> int \<Rightarrow> int \<Rightarrow> int \<Rightarrow> 'e world \<Rightarrow> int \<times> int \<times> 'e world" where
  "drain_resampler eng d frameCount out_ptr frames_read w =
     (let (flushed_samples, w1) =
            av eng (SwrConvert out_ptr (c_int (frameCount - frames_read)) False) w;
          out_ptr' = (if flushed_samples > 0
                      then out_ptr + c_int (flushed_samples * target_channels d * target_bytes_per_sample d)
                      else out_ptr);
          frames_read' = (if flushed_samples > 0 then frames_read + flushed_samples
                          else frames_read)
      in if flushed_samples > 0 \<and> frames_read' < frameCount
         then drain_resampler eng d frameCount out_ptr' frames_read' w1
         else (out_ptr', frames_read', w1))"
  by pat_completeness auto
termination
  by (relation "measure (\<lambda>(eng, d, frameCount, out_ptr, frames_read, w). nat (frameCount - frames_read))")
     auto

declare drain_resampler.simps [simp del]

text \<open>
  The \<^verbatim>\<open>while (frames_read < frameCount)\<close> loop of \<^verbatim>\<open>sf_decoder_read_pcm_frames\<close>.
  Nothing in the wrapper bounds it (an engine that keeps asking for input while the
  container keeps delivering packets of other streams keeps it running), so it is a
  partial function: \<open>None\<close> is the run that never returns. The result is the return
  code, the final \<open>frames_read\<close> and the engine. \<open>frames_read\<close> is an
  \<^verbatim>\<open>int64_t\<close> that grows by less than \<open>2 ^ 31\<close> per round and stops the loop when
  it reaches \<open>frameCount\<close>; it is an unbounded integer here.
\<close>

partial_function (option) read_loop ::
  "'e engine \<Rightarrow> SF_Decoder \<Rightarrow> int \<Rightarrow> int \<Rightarrow> int \<Rightarrow> bool \<Rightarrow> 'e world \<Rightarrow>
     (SF_Result \<times> int \<times> 'e world) option" where
  "read_loop eng d frameCount out_ptr frames_read draining w =
     (if \<not> frames_read < frameCount then Some (SF_RESULT_SUCCESS, frames_read, w)
      else
        let (ret, w1) = av eng AvcodecReceiveFrame w in
        if ret = 0 then
          (let (out_samples, w2) =
                 av eng (SwrConvert out_ptr (c_int (frameCount - frames_read)) True) w1;
               (u, w3) = av eng AvFrameUnref w2
           in if out_samples > 0
              then read_loop eng d frameCount
                     (out_ptr + c_int (out_samples * target_channels d * target_bytes_per_sample d))
                     (frames_read + out_samples) draining w3
              else read_loop eng d frameCount out_ptr frames_read draining w3)
        else if ret = AVERROR_EOF then
          (let (out_ptr', frames_read', w2) = drain_resampler eng d frameCount out_ptr frames_read w1
           in Some (SF_RESULT_SUCCESS, frames_read', w2))
        else if ret \<noteq> AVERROR EAGAIN then
          Some (SF_RESULT_DECODER_ERROR_DECODING_FAILED, frames_read, w1)
        else if draining then Some (SF_RESULT_SUCCESS, frames_read, w1)
        else
          let (u, w2) = av eng AvPacketUnref w1;
              (read_ret, w3) = av eng AvReadFrame w2 in
          if read_ret = 0 then
            (if packet_stream_index eng (fst w3) = stream_index d then
               (let (sent, w4) = av eng (AvcodecSendPacket True) w3;
                    (u, w5) = av eng AvPacketUnref w4
                in if sent < 0
                   then Some (SF_RESULT_DECODER_ERROR_DECODING_FAILED, frames_read, w5)
                   else read_loop eng d frameCount out_ptr frames_read draining w5)
             else
               (let (u, w4) = av eng AvPacketUnref w3
                in read_loop eng d frameCount out_ptr frames_read draining w4))
          else if read_ret = AVERROR_EOF then
            (let (u, w4) = av eng (AvcodecSendPacket False) w3
             in read_loop eng d frameCount out_ptr frames_read True w4)
          else Some (SF_RESULT_DECODER_ERROR_DECODING_FAILED, frames_read, w3))"

declare read_loop.simps [code]

text \<open>
  \<^verbatim>\<open>sf_decoder_read_pcm_frames\<close>. \<open>pFramesOut\<close> and \<open>out_frames_read\<close> say whether
  the two pointers are non-\<^verbatim>\<open>NULL\<close>. The result is the return code, the value left in
  \<^verbatim>\<open>*out_frames_read\<close> (\<open>None\<close> when the function never stored to it), the engine
  and the log of this call.
\<close>

definition sf_decoder_read_pcm_frames ::
  "'e engine \<Rightarrow> SF_Decoder option \<Rightarrow> 'e \<Rightarrow> bool \<Rightarrow> int \<Rightarrow> bool \<Rightarrow>
     (SF_Result \<times> int option \<times> 'e world) option" where
  "sf_decoder_read_pcm_frames eng decoder e pFramesOut frameCount out_frames_read =
     (case decoder of
        None \<Rightarrow> Some (SF_RESULT_ERROR_INVALID_ARGS, None, (e, []))
      | Some d \<Rightarrow>
          if \<not> pFramesOut \<or> \<not> out_frames_read \<or> frameCount \<le> 0
          then Some (SF_RESULT_ERROR_INVALID_ARGS, None, (e, []))
          else map_option (\<lambda>(r, frames_read, w). (r, Some frames_read, w))
                 (read_loop eng d frameCount 0 0 False (e, [])))"

section \<open>A reference engine for the decoder\<close>

text \<open>
  A small executable engine, used to run the wrapper on concrete streams. The container
  is the list of packets not yet read, each with its stream index and the number of PCM
  frames it decodes to (\<open>- 1\<close> marks corrupt data that the codec reports when it is
  asked for the frame, a smaller number a packet that the codec refuses to take). The codec holds the packets sent to it until they are
  received as frames, and reports end of stream once it is empty and draining was
  requested. The resampler converts as many frames as the output capacity allows and
  keeps the rest of its input for the next call.
\<close>

record sim =
  sim_packets :: "(int \<times> int) list"
  sim_io_error :: bool
  sim_packet :: "(int \<times> int) option"
  sim_draining :: bool
  sim_codec :: "int list"
  sim_frame :: int
  sim_swr :: int
  sim_streams :: nat
  sim_best :: int
  sim_channels :: int
  sim_rate :: int
  sim_fmt :: AVSampleFormat

definition AVERROR_INVALIDDATA :: int where
  "AVERROR_INVALIDDATA = - 1094995529"

fun sim_exec :: "av_call \<Rightarrow> sim \<Rightarrow> int \<times> sim" where
  "sim_exec AvReadFrame s =
     (case sim_packets s of
        [] \<Rightarrow> (if sim_io_error s then AVERROR EIO else AVERROR_EOF, s)
      | p # ps \<Rightarrow> (0, s\<lparr>sim_packets := ps, sim_packet := Some p\<rparr>))"
| "sim_exec (AvcodecSendPacket True) s =
     (case sim_packet s of
        None \<Rightarrow> (AVERROR EINVAL, s)
      | Some p \<Rightarrow>
          if snd p < - 1 then (AVERROR_INVALIDDATA, s)
          else (0, s\<lparr>sim_codec := sim_codec s @ [snd p]\<rparr>))"
| "sim_exec (AvcodecSendPacket False) s = (0, s\<lparr>sim_draining := True\<rparr>)"
| "sim_exec AvcodecReceiveFrame s =
     (case sim_codec s of
        [] \<Rightarrow> (if sim_draining s then AVERROR_EOF else AVERROR EAGAIN, s)
      | n # ns \<Rightarrow>
          if n < 0 then (AVERROR_INVALIDDATA, s\<lparr>sim_codec := ns\<rparr>)
          else (0, s\<lparr>sim_codec := ns, sim_frame := n\<rparr>))"
| "sim_exec (SwrConvert off n inp) s =
     (if n < 0 then (AVERROR EINVAL, s)
      else let buffered = sim_swr s + (if inp then sim_frame s else 0);
               converted = min n buffered
           in (converted, s\<lparr>sim_swr := buffered - converted\<rparr>))"
| "sim_exec AvPacketUnref s = (0, s\<lparr>sim_packet := None\<rparr>)"
| "sim_exec AvFrameUnref s = (0, s\<lparr>sim_frame := 0\<rparr>)"
| "sim_exec AvFindBestStream s = (sim_best s, s)"
| "sim_exec AvformatAllocContext s = (1, s)"
| "sim_exec AvMalloc s = (1, s)"
| "sim_exec (AvioAllocContext wr) s = (1, s)"
| "sim_exec AvcodecFindDecoder s = (1, s)"
| "sim_exec AvcodecAllocContext3 s = (1, s)"
| "sim_exec (SwrAllocSetOpts2 fo ro fi ri) s = (1, s)"
| "sim_exec AvPacketAlloc s = (1, s)"
| "sim_exec AvFrameAlloc s = (1, s)"
| "sim_exec c s = (0, s)"

definition sim_engine :: "sim engine" where
  "sim_engine =
     \<lparr>av_exec = sim_exec,
      nb_streams = sim_streams,
      packet_stream_index = (\<lambda>s. case sim_packet s of None \<Rightarrow> - 1 | Some p \<Rightarrow> fst p),
      codec_nb_channels = sim_channels,
      codec_sample_rate = sim_rate,
      codec_sample_fmt = sim_fmt,
      codec_has_sample_fmts = (\<lambda>s. True),
      oformat_global_header = (\<lambda>s. False)\<rparr>"

text \<open>A stereo stream 0 with the given packets, before \<^verbatim>\<open>sf_decoder_init\<close>.\<close>

definition sim_open :: "(int \<times> int) list \<Rightarrow> bool \<Rightarrow> sim" where
  "sim_open ps io_error =
     \<lparr>sim_packets = ps, sim_io_error = io_error, sim_packet = None, sim_draining = False,
      sim_codec = [], sim_frame = 0, sim_swr = 0, sim_streams = 2, sim_best = 0,
      sim_channels = 2, sim_rate = 44100, sim_fmt = AV_SAMPLE_FMT_FLTP\<rparr>"

text \<open>The frames of stream \<open>i\<close> that a read can still produce.\<close>

definition frames_remaining :: "int \<Rightarrow> sim \<Rightarrow> int" where
  "frames_remaining i s =
     sim_swr s + sum_list (sim_codec s)
       + sum_list (map snd (filter (\<lambda>p. fst p = i) (sim_packets s)))"

text \<open>A decoder for stream 0 of the reference engine: stereo, 16-bit output.\<close>

definition sim_decoder :: SF_Decoder where
  "sim_decoder = \<lparr>stream_index = 0, target_bytes_per_sample = 2, target_channels = 2\<rparr>"

text \<open>
  The reference engine with a codec that fails the request to drain
  (\<^verbatim>\<open>avcodec_send_packet\<close> with a \<^verbatim>\<open>NULL\<close> packet) for lack of memory, and does
  everything else as before.
\<close>

definition sim_nodrain_exec :: "av_call \<Rightarrow> sim \<Rightarrow> int \<times> sim" where
  "sim_nodrain_exec c s =
     (if c = AvcodecSendPacket False then (AVERROR ENOMEM, s) else sim_exec c s)"

definition sim_nodrain_engine :: "sim engine" where
  "sim_nodrain_engine = sim_engine\<lparr>av_exec := sim_nodrain_exec\<rparr>"

section \<open>Encoder\<close>

text \<open>
  \<^verbatim>\<open>write_packet_callback\<close>, the adapter between the muxer's buffered output and the
  caller's write callback. \<open>onWrite\<close> takes the caller's state and the number of bytes
  to write and returns the number it wrote; both numbers are \<^verbatim>\<open>size_t\<close>, so the
  \<^verbatim>\<open>int\<close> \<open>buf_size\<close> is converted before the call and before the comparison.
\<close>

definition c_size_t :: "int \<Rightarrow> int" where
  "c_size_t x = x mod 2 ^ 64"

definition write_packet_callback ::
  "('u \<Rightarrow> int \<Rightarrow> int \<times> 'u) \<Rightarrow> 'u \<Rightarrow> int \<Rightarrow> int \<times> 'u" where
  "write_packet_callback onWrite pUserData buf_size =
     (let (bytes_written, pUserData') = onWrite pUserData (c_size_t buf_size)
      in (if bytes_written < c_size_t buf_size then AVERROR EIO else c_int bytes_written,
          pUserData'))"

text \<open>
  The fields of \<^verbatim>\<open>struct SF_Encoder\<close> that the wrapper reads back: the timestamp
  counter, the declared input format, and whether \<^verbatim>\<open>format_ctx\<close> and its \<^verbatim>\<open>pb\<close> are
  set. \<^verbatim>\<open>sf_encoder_create\<close> returns the zeroed structure.
\<close>

record SF_Encoder =
  next_pts :: int
  input_format :: SFSampleFormat
  format_ctx :: bool
  pb :: bool

definition sf_encoder_create :: SF_Encoder where
  "sf_encoder_create =
     \<lparr>next_pts = 0, input_format = SF_SAMPLE_FORMAT_UNKNOWN, format_ctx = False, pb = False\<rparr>"

text \<open>
  The loop of \<^verbatim>\<open>encode_and_write\<close>: receive packets and hand them to the muxer until the
  codec has none left or a step fails. The wrapper does not bound it, so it is a partial
  function.
\<close>

partial_function (option) encode_loop ::
  "'e engine \<Rightarrow> int \<Rightarrow> 'e world \<Rightarrow> (int \<times> 'e world) option" where
  "encode_loop eng ret w =
     (if \<not> 0 \<le> ret then Some (0, w)
      else
        let (ret', w1) = av eng AvcodecReceivePacket w in
        if ret' = AVERROR EAGAIN \<or> ret' = AVERROR_EOF then Some (0, w1)
        else if ret' < 0 then Some (ret', w1)
        else
          let (u, w2) = av eng AvPacketRescaleTs w1;
              (u, w3) = av eng PacketSetStreamIndex w2;
              (write_ret, w4) = av eng AvInterleavedWriteFrame w3;
              (u, w5) = av eng AvPacketUnref w4
          in if write_ret < 0 then Some (write_ret, w5)
             else encode_loop eng ret' w5)"

declare encode_loop.simps [code]

definition encode_and_write ::
  "'e engine \<Rightarrow> AVFrame option \<Rightarrow> 'e world \<Rightarrow> (int \<times> 'e world) option" where
  "encode_and_write eng frame w =
     (let (ret, w1) = av eng (AvcodecSendFrame frame) w
      in if ret < 0 then Some (ret, w1) else encode_loop eng ret w1)"

text \<open>
  \<^verbatim>\<open>sf_encoder_init\<close>. \<open>channels\<close> and \<open>sampleRate\<close> are \<^verbatim>\<open>uint32_t\<close> values;
  the engine takes them as \<^verbatim>\<open>int\<close>, so each use converts them. The result is the
  return code, the encoder fields and the engine.
\<close>

definition sf_encoder_init ::
  "'e engine \<Rightarrow> SF_Encoder option \<Rightarrow> string \<Rightarrow> SFSampleFormat \<Rightarrow> int \<Rightarrow> int \<Rightarrow> 'e \<Rightarrow>
     SF_Result \<times> SF_Encoder option \<times> 'e world" where
  "sf_encoder_init eng encoder format_name sampleFormat channels sampleRate e =
     (case encoder of
        None \<Rightarrow> (SF_RESULT_ERROR_INVALID_ARGS, None, (e, []))
      | Some enc \<Rightarrow>
     let (u, w1) = av eng AvLogSetLevel (e, []);
         enc1 = enc\<lparr>next_pts := 0, input_format := sampleFormat\<rparr>;
         (out_fmt, w2) = av eng (AvGuessFormat format_name) w1 in
     if out_fmt = 0 then (SF_RESULT_ENCODER_ERROR_FORMAT_NOT_FOUND, Some enc1, w2) else
     let (fctx, w3) = av eng AvformatAllocOutputContext2 w2;
         enc2 = enc1\<lparr>format_ctx := (fctx \<noteq> 0)\<rparr> in
     if fctx = 0 then (SF_RESULT_ENCODER_ERROR_FORMAT_NOT_FOUND, Some enc2, w3) else
     let (codec, w4) = av eng AvcodecFindEncoder w3 in
     if codec = 0 then (SF_RESULT_ENCODER_ERROR_CODEC_NOT_FOUND, Some enc2, w4) else
     let (stream, w5) = av eng AvformatNewStream w4 in
     if stream = 0 then (SF_RESULT_ENCODER_ERROR_STREAM_ALLOC, Some enc2, w5) else
     let (codec_ctx, w6) = av eng AvcodecAllocContext3 w5 in
     if codec_ctx = 0 then (SF_RESULT_ENCODER_ERROR_CODEC_CONTEXT_ALLOC, Some enc2, w6) else
     let (u, w7) = av eng (AvChannelLayoutDefault (c_int channels)) w6;
         (u, w8) = av eng AvChannelLayoutCopy w7;
         (u, w9) = av eng (CodecSetSampleRate (c_int sampleRate)) w8 in
     if \<not> codec_has_sample_fmts eng (fst w9) then
       (SF_RESULT_ENCODER_ERROR_CODEC_NOT_FOUND, Some enc2, w9) else
     let (u, w10) = av eng CodecSetSampleFmt w9;
         w11 = (if oformat_global_header eng (fst w10)
                then snd (av eng CodecSetGlobalHeader w10) else w10);
         (codec_open, w12) = av eng AvcodecOpen2 w11 in
     if codec_open < 0 then (SF_RESULT_ENCODER_ERROR_CODEC_OPEN_FAILED, Some enc2, w12) else
     let (params, w13) = av eng AvcodecParametersFromContext w12 in
     if params < 0 then (SF_RESULT_ENCODER_ERROR_CONTEXT_PARAMS, Some enc2, w13) else
     let (io_buffer, w14) = av eng AvMalloc w13;
         (avio_ctx, w15) = av eng (AvioAllocContext True) w14;
         enc3 = enc2\<lparr>pb := (avio_ctx \<noteq> 0)\<rparr>;
         (header, w16) = av eng AvformatWriteHeader w15 in
     if header < 0 then (SF_RESULT_ENCODER_ERROR_WRITE_HEADER, Some enc3, w16) else
     let input_av_format = to_ffmpeg_sample_format sampleFormat in
     if input_av_format = AV_SAMPLE_FMT_NONE then
       (SF_RESULT_ENCODER_ERROR_INVALID_INPUT_FORMAT, Some enc3, w16) else
     let (swr_ctx, w17) =
           av eng (SwrAllocSetOpts2 (codec_sample_fmt eng (fst w16)) (codec_sample_rate eng (fst w16))
                     input_av_format (c_int sampleRate)) w16 in
     if swr_ctx = 0 then (SF_RESULT_ENCODER_ERROR_RESAMPLER_INIT_FAILED, Some enc3, w17) else
     let (swr_ok, w18) = av eng SwrInit w17 in
     if swr_ok < 0 then (SF_RESULT_ENCODER_ERROR_RESAMPLER_INIT_FAILED, Some enc3, w18) else
     let (packet, w19) = av eng AvPacketAlloc w18;
         (frame, w20) = av eng AvFrameAlloc w19 in
     if packet = 0 \<or> frame = 0 then (SF_RESULT_ENCODER_ERROR_PACKET_FRAME_ALLOC, Some enc3, w20)
     else (SF_RESULT_SUCCESS, Some enc3, w20))"

text \<open>
  \<^verbatim>\<open>sf_encoder_write_pcm_frames\<close>. \<open>pFramesIn\<close> and \<open>out_frames_written\<close> say whether
  the two pointers are non-\<^verbatim>\<open>NULL\<close>. The result is the return code, the encoder fields,
  the value left in \<^verbatim>\<open>*out_frames_written\<close> (\<open>None\<close> when nothing was stored), the
  engine and the log of this call. \<open>None\<close> for the whole result is the call that does
  not return: \<open>encode_loop\<close> runs forever, or \<^verbatim>\<open>av_frame_alloc\<close> returned \<^verbatim>\<open>NULL\<close>,
  which the source dereferences unchecked. \<^verbatim>\<open>next_pts\<close> is an \<^verbatim>\<open>int64_t\<close>.
\<close>

definition sf_encoder_write_pcm_frames ::
  "'e engine \<Rightarrow> SF_Encoder option \<Rightarrow> 'e \<Rightarrow> bool \<Rightarrow> int \<Rightarrow> bool \<Rightarrow>
     (SF_Result \<times> SF_Encoder option \<times> int option \<times> 'e world) option" where
  "sf_encoder_write_pcm_frames eng encoder e pFramesIn frameCount out_frames_written =
     (case encoder of
        None \<Rightarrow> Some (SF_RESULT_ERROR_INVALID_ARGS, None, None, (e, []))
      | Some enc \<Rightarrow>
          if \<not> pFramesIn \<or> \<not> out_frames_written \<or> frameCount \<le> 0
          then Some (SF_RESULT_ERROR_INVALID_ARGS, Some enc, None, (e, []))
          else
            let (resampled_frame, w1) = av eng AvFrameAlloc (e, []) in
            if resampled_frame = 0 then None
            else
              let (u, w2) = av eng AvChannelLayoutCopy w1;
                  nb = c_int frameCount;
                  (buffer, w3) = av eng (AvFrameGetBuffer nb) w2 in
              if buffer < 0 then
                (let (u, w4) = av eng AvFrameFree w3
                 in Some (SF_RESULT_ERROR_ALLOCATION_FAILED, Some enc, Some 0, w4))
              else
                let (u, w4) = av eng (SwrConvertIn nb (c_int frameCount)) w3;
                    frame = \<lparr>nb_samples = nb, pts = next_pts enc\<rparr>;
                    enc' = enc\<lparr>next_pts := c_int64 (next_pts enc + nb)\<rparr>
                in (case encode_and_write eng (Some frame) w4 of
                      None \<Rightarrow> None
                    | Some (ret, w5) \<Rightarrow>
                        let (u, w6) = av eng AvFrameFree w5
                        in if ret < 0 then
                             (if ret = AVERROR EIO
                              then Some (SF_RESULT_ENCODER_ERROR_WRITE_FAILED, Some enc', Some 0, w6)
                              else Some (SF_RESULT_ENCODER_ERROR_ENCODING_FAILED, Some enc', Some 0, w6))
                           else Some (SF_RESULT_SUCCESS, Some enc', Some frameCount, w6)))"

text \<open>
  \<^verbatim>\<open>sf_encoder_free\<close> returns \<^verbatim>\<open>void\<close>: the result is the engine and the log of the
  call only. The value of \<^verbatim>\<open>encode_and_write\<close> is dropped, as in the source.
\<close>

definition sf_encoder_free :: "'e engine \<Rightarrow> SF_Encoder option \<Rightarrow> 'e \<Rightarrow> 'e world option" where
  "sf_encoder_free eng encoder e =
     (case encoder of
        None \<Rightarrow> Some (e, [])
      | Some enc \<Rightarrow>
          (case encode_and_write eng None (e, []) of
             None \<Rightarrow> None
           | Some (ret, w1) \<Rightarrow>
               let (u, w2) = av eng AvWriteTrailer w1;
                   (u, w3) = av eng AvcodecFreeContext w2;
                   w4 = (if format_ctx enc then
                           (let w3' = (if pb enc then
                                         (let (u, a) = av eng AvioFlush w3;
                                              (u, b) = av eng AvFreep a;
                                              (u, c) = av eng AvioContextFree b
                                          in c)
                                       else w3)
                            in snd (av eng AvformatFreeContext w3'))
                         else w3);
                   (u, w5) = av eng AvPacketFree w4;
                   (u, w6) = av eng AvFrameFree w5;
                   (u, w7) = av eng SwrFree w6
               in Some w7))"

section \<open>A caller of the encoder\<close>

text \<open>
  The life of one encoder as the header prescribes it: create, initialise, any number
  of writes (each given by whether the input pointer is set and by its frame count),
  free. The result is the list of return codes the caller saw (\<^verbatim>\<open>sf_encoder_free\<close>
  returns none) and the log of all engine calls, in order.
\<close>

fun write_all ::
  "'e engine \<Rightarrow> SF_Encoder option \<Rightarrow> 'e \<Rightarrow> (bool \<times> int) list \<Rightarrow>
     (SF_Result list \<times> SF_Encoder option \<times> 'e world) option" where
  "write_all eng encoder e [] = Some ([], encoder, (e, []))"
| "write_all eng encoder e (c # cs) =
     (case sf_encoder_write_pcm_frames eng encoder e (fst c) (snd c) True of
        None \<Rightarrow> None
      | Some (r, encoder1, out, w1) \<Rightarrow>
          (case write_all eng encoder1 (fst w1) cs of
             None \<Rightarrow> None
           | Some (rs, encoder2, w2) \<Rightarrow> Some (r # rs, encoder2, (fst w2, snd w1 @ snd w2))))"


section \<open>A reference engine for the encoder\<close>

text \<open>
  An executable engine for the encoder. The codec turns a frame of \<open>n\<close> samples into
  one packet of \<open>n\<close> bytes, at once or, when \<open>es_hold\<close> is set, only when it is flushed;
  it rejects every frame when \<open>es_reject\<close> is set. The muxer passes the header (44
  bytes), each packet and the trailer (8 bytes) to \<open>write_packet_callback\<close> and returns
  the callback's error when there is one. The caller's sink accepts \<open>es_room\<close> more bytes
  and writes short after that.
\<close>

record esim =
  es_hold :: bool
  es_reject :: bool
  es_pending :: "int list"
  es_ready :: "int list"
  es_flushed :: bool
  es_packet :: int
  es_room :: int

definition sink_write :: "int \<Rightarrow> int \<Rightarrow> int \<times> int" where
  "sink_write room n = (min n (max 0 room), room - min n (max 0 room))"

definition esim_mux :: "int \<Rightarrow> esim \<Rightarrow> int \<times> esim" where
  "esim_mux n s =
     (let (r, room) = write_packet_callback sink_write (es_room s) n
      in (if r < 0 then r else 0, s\<lparr>es_room := room\<rparr>))"

fun esim_exec :: "av_call \<Rightarrow> esim \<Rightarrow> int \<times> esim" where
  "esim_exec (AvcodecSendFrame (Some f)) s =
     (if es_reject s then (AVERROR_INVALIDDATA, s)
      else if es_hold s then (0, s\<lparr>es_pending := es_pending s @ [nb_samples f]\<rparr>)
      else (0, s\<lparr>es_ready := es_ready s @ [nb_samples f]\<rparr>))"
| "esim_exec (AvcodecSendFrame None) s =
     (0, s\<lparr>es_ready := es_ready s @ es_pending s, es_pending := [], es_flushed := True\<rparr>)"
| "esim_exec AvcodecReceivePacket s =
     (case es_ready s of
        [] \<Rightarrow> (if es_flushed s then AVERROR_EOF else AVERROR EAGAIN, s)
      | p # ps \<Rightarrow> (0, s\<lparr>es_ready := ps, es_packet := p\<rparr>))"
| "esim_exec AvInterleavedWriteFrame s = esim_mux (es_packet s) s"
| "esim_exec AvformatWriteHeader s = esim_mux 44 s"
| "esim_exec AvWriteTrailer s = esim_mux 8 s"
| "esim_exec (AvFrameGetBuffer n) s = (if n \<le> 0 then AVERROR EINVAL else 0, s)"
| "esim_exec (AvGuessFormat name) s = (if name = ''wav'' then 1 else 0, s)"
| "esim_exec AvformatAllocOutputContext2 s = (1, s)"
| "esim_exec AvcodecFindEncoder s = (1, s)"
| "esim_exec AvformatNewStream s = (1, s)"
| "esim_exec AvcodecAllocContext3 s = (1, s)"
| "esim_exec AvMalloc s = (1, s)"
| "esim_exec (AvioAllocContext wr) s = (1, s)"
| "esim_exec (SwrAllocSetOpts2 fo ro fi ri) s = (1, s)"
| "esim_exec AvPacketAlloc s = (1, s)"
| "esim_exec AvFrameAlloc s = (1, s)"
| "esim_exec c s = (0, s)"

definition esim_engine :: "esim engine" where
  "esim_engine =
     \<lparr>av_exec = esim_exec,
      nb_streams = (\<lambda>s. 1),
      packet_stream_index = (\<lambda>s. 0),
      codec_nb_channels = (\<lambda>s. 2),
      codec_sample_rate = (\<lambda>s. 44100),
      codec_sample_fmt = (\<lambda>s. AV_SAMPLE_FMT_S16),
      codec_has_sample_fmts = (\<lambda>s. True),
      oformat_global_header = (\<lambda>s. False)\<rparr>"

text \<open>A fresh engine: whether the codec holds or rejects frames, and the sink's room.\<close>

definition esim_open :: "bool \<Rightarrow> bool \<Rightarrow> int \<Rightarrow> esim" where
  "esim_open hold reject room =
     \<lparr>es_hold = hold, es_reject = reject, es_pending = [], es_ready = [],
      es_flushed = False, es_packet = 0, es_room = room\<rparr>"

section \<open>Vocabulary of the decoder's properties\<close>

text \<open>
  The contract of \<^verbatim>\<open>swr_convert\<close> that the wrapper relies on: it returns an error,
  zero, or a number of frames no larger than the output capacity it was given.
\<close>

definition honours_capacity :: "'e engine \<Rightarrow> bool" where
  "honours_capacity eng =
     (\<forall>off n inp e. fst (av_exec eng (SwrConvert off n inp) e) \<le> max 0 n)"

text \<open>
  A logged \<open>SwrConvert off n inp\<close> that returned \<open>r > 0\<close> wrote \<open>r\<close> frames, that is
  \<open>r * target_channels * target_bytes_per_sample\<close> bytes, at byte offset \<open>off\<close> of the
  caller's buffer. \<open>write_within\<close> says that such a write ends inside the region of
  \<open>frameCount\<close> frames; \<open>write_inside\<close> says that it also starts at or after the
  first byte of the buffer; \<open>frames_produced\<close> counts the frames written by a log.
\<close>

definition write_within :: "SF_Decoder \<Rightarrow> int \<Rightarrow> av_call \<times> int \<Rightarrow> bool" where
  "write_within d frameCount ev =
     (case ev of
        (SwrConvert off n inp, r) \<Rightarrow>
          0 < r \<longrightarrow> off + r * target_channels d * target_bytes_per_sample d
                      \<le> frameCount * target_channels d * target_bytes_per_sample d
      | _ \<Rightarrow> True)"

definition write_inside :: "SF_Decoder \<Rightarrow> int \<Rightarrow> av_call \<times> int \<Rightarrow> bool" where
  "write_inside d frameCount ev =
     (case ev of
        (SwrConvert off n inp, r) \<Rightarrow>
          0 < r \<longrightarrow> 0 \<le> off
                  \<and> off + r * target_channels d * target_bytes_per_sample d
                      \<le> frameCount * target_channels d * target_bytes_per_sample d
      | _ \<Rightarrow> True)"

definition frames_of :: "av_call \<times> int \<Rightarrow> int" where
  "frames_of ev = (case ev of (SwrConvert off n inp, r) \<Rightarrow> max 0 r | _ \<Rightarrow> 0)"

definition frames_produced :: "(av_call \<times> int) list \<Rightarrow> int" where
  "frames_produced log = sum_list (map frames_of log)"

text \<open>
  The states of the reference engine that a decoder can be in: no corrupt or refused
  packet, no read error, and no packet left once draining has begun.
\<close>

definition wf_sim :: "sim \<Rightarrow> bool" where
  "wf_sim s = ((\<forall>p \<in> set (sim_packets s). 0 \<le> snd p) \<and> (\<forall>n \<in> set (sim_codec s). 0 \<le> n)
      \<and> 0 \<le> sim_swr s \<and> \<not> sim_io_error s \<and> (sim_draining s \<longrightarrow> sim_packets s = []))"

text \<open>
  The invariant of the read loop. The output cursor is at or before the end of the
  frames written so far; it is exactly there as long as the requested region is
  smaller than \<open>2 ^ 31\<close> bytes, so that the \<^verbatim>\<open>int\<close> product that advances it cannot
  wrap.
\<close>

definition loop_inv :: "SF_Decoder \<Rightarrow> int \<Rightarrow> int \<Rightarrow> int \<Rightarrow> 'e world \<Rightarrow> bool" where
  "loop_inv d frameCount out_ptr frames_read w =
     (0 \<le> frames_read \<and> frames_read \<le> frameCount
      \<and> out_ptr \<le> frames_read * target_channels d * target_bytes_per_sample d
      \<and> list_all (write_within d frameCount) (snd w)
      \<and> frames_produced (snd w) = frames_read
      \<and> (frameCount * target_channels d * target_bytes_per_sample d < 2 ^ 31 \<longrightarrow>
             out_ptr = frames_read * target_channels d * target_bytes_per_sample d
             \<and> list_all (write_inside d frameCount) (snd w)))"

text \<open>
  The failures that the read loop checks: a result of \<^verbatim>\<open>avcodec_receive_frame\<close> other
  than 0, end of stream and \<^verbatim>\<open>EAGAIN\<close>; a result of \<^verbatim>\<open>av_read_frame\<close> other than 0
  and end of input; a negative result of \<^verbatim>\<open>avcodec_send_packet\<close> for a data packet.
  \<open>fail_inv\<close> is the state of a read in which none has happened; \<open>failure_reported\<close>
  is the outcome of a read that reports the frames it produced, returns
  \<open>SF_RESULT_DECODER_ERROR_DECODING_FAILED\<close> when its log holds a checked failure, with
  no call after the failure but the release of the packet, and returns
  \<open>SF_RESULT_SUCCESS\<close> when its log holds none.
\<close>

definition checked_failure :: "av_call \<times> int \<Rightarrow> bool" where
  "checked_failure ev =
     (case ev of
        (AvcodecReceiveFrame, r) \<Rightarrow> r \<noteq> 0 \<and> r \<noteq> AVERROR_EOF \<and> r \<noteq> AVERROR EAGAIN
      | (AvReadFrame, r) \<Rightarrow> r \<noteq> 0 \<and> r \<noteq> AVERROR_EOF
      | (AvcodecSendPacket pkt, r) \<Rightarrow> pkt \<and> r < 0
      | _ \<Rightarrow> False)"

definition fail_inv :: "int \<Rightarrow> 'e world \<Rightarrow> bool" where
  "fail_inv frames_read w =
     (frames_produced (snd w) = frames_read \<and> \<not> list_ex checked_failure (snd w))"

definition failure_reported :: "SF_Result \<Rightarrow> int \<Rightarrow> (av_call \<times> int) list \<Rightarrow> bool" where
  "failure_reported r n log =
     (frames_produced log = n
      \<and> (if list_ex checked_failure log
         then r = SF_RESULT_DECODER_ERROR_DECODING_FAILED
              \<and> checked_failure (last (filter (\<lambda>ev. fst ev \<noteq> AvPacketUnref) log))
         else r = SF_RESULT_SUCCESS))"

section \<open>Vocabulary of the encoder's properties\<close>

text \<open>
  The calls that \<open>encode_loop\<close> makes, and the calls with which \<^verbatim>\<open>sf_encoder_free\<close>
  releases the engine objects.
\<close>

definition loop_calls :: "av_call set" where
  "loop_calls = {AvcodecReceivePacket, AvPacketRescaleTs, PacketSetStreamIndex,
                 AvInterleavedWriteFrame, AvPacketUnref}"

definition cleanup_calls :: "av_call set" where
  "cleanup_calls = {AvcodecFreeContext, AvioFlush, AvFreep, AvioContextFree,
                    AvformatFreeContext, AvPacketFree, AvFrameFree, SwrFree}"

text \<open>
  The log of a complete run of the loop of \<^verbatim>\<open>encode_and_write\<close>: rounds that receive
  a packet, rescale it, set its stream and hand it to the muxer, until
  \<^verbatim>\<open>avcodec_receive_packet\<close> returns a negative code (the codec has no packet left, or
  it failed) or the muxer fails. No received packet is left unwritten, and the loop is
  not left while the codec still delivers packets.
\<close>

fun drained :: "(av_call \<times> int) list \<Rightarrow> bool" where
  "drained [(c, r)] = (c = AvcodecReceivePacket \<and> r < 0)"
| "drained ((c1, r1) # (c2, r2) # (c3, r3) # (c4, r4) # (c5, r5) # rest) =
     (c1 = AvcodecReceivePacket \<and> 0 \<le> r1 \<and> c2 = AvPacketRescaleTs
      \<and> c3 = PacketSetStreamIndex \<and> c4 = AvInterleavedWriteFrame \<and> c5 = AvPacketUnref
      \<and> (if r4 < 0 then rest = [] else drained rest))"
| "drained _ = False"

text \<open>
  An engine whose codec runs out of packets: some measure of the engine's state goes
  down with every packet received and does not go up in the other calls of the loop.
\<close>

definition finite_codec :: "'e engine \<Rightarrow> ('e \<Rightarrow> nat) \<Rightarrow> bool" where
  "finite_codec eng m =
     (\<forall>e. (0 \<le> fst (av_exec eng AvcodecReceivePacket e) \<longrightarrow>
              m (snd (av_exec eng AvcodecReceivePacket e)) < m e)
        \<and> m (snd (av_exec eng AvPacketRescaleTs e)) \<le> m e
        \<and> m (snd (av_exec eng PacketSetStreamIndex e)) \<le> m e
        \<and> m (snd (av_exec eng AvInterleavedWriteFrame e)) \<le> m e
        \<and> m (snd (av_exec eng AvPacketUnref e)) \<le> m e)"

text \<open>
  The three calls that mark the life of the container: the header, the trailer and the
  \<^verbatim>\<open>NULL\<close> frame that tells the codec that no more input will come.
\<close>

definition markers :: "av_call set" where
  "markers = {AvformatWriteHeader, AvWriteTrailer, AvcodecSendFrame None}"

text \<open>The calls of a log, and whether a call submits a PCM frame to the codec.\<close>

definition calls_of :: "'e world \<Rightarrow> av_call list" where
  "calls_of w = map fst (snd w)"

definition is_pcm :: "av_call \<Rightarrow> bool" where
  "is_pcm c = (case c of AvcodecSendFrame (Some f) \<Rightarrow> True | _ \<Rightarrow> False)"

text \<open>
  The frames submitted to the codec by a log, in order. \<open>contiguous p fs\<close>: the first
  frame is stamped \<open>p\<close> and each next one is stamped with its predecessor's stamp plus
  its predecessor's length. A return code is \<open>accepted\<close> when the call got past the
  argument check and the frame allocation.
\<close>

definition submitted :: "(av_call \<times> int) list \<Rightarrow> AVFrame list" where
  "submitted log = concat (map (\<lambda>ev. case fst ev of AvcodecSendFrame (Some f) \<Rightarrow> [f] | _ \<Rightarrow> []) log)"

fun contiguous :: "int \<Rightarrow> AVFrame list \<Rightarrow> bool" where
  "contiguous p [] = True"
| "contiguous p (f # fs) = (pts f = p \<and> contiguous (p + nb_samples f) fs)"

definition accepted :: "SF_Result \<Rightarrow> bool" where
  "accepted r = (r \<noteq> SF_RESULT_ERROR_INVALID_ARGS \<and> r \<noteq> SF_RESULT_ERROR_ALLOCATION_FAILED)"

text \<open>
  An initialised encoder of the reference engine with the given timestamp counter, and
  the engine and log after each phase of one life on the reference engine with a codec
  that holds its packets until it is flushed: initialisation (\<open>esim_w0\<close>), one write of
  ten frames (\<open>esim_w1\<close>), free (\<open>esim_w2\<close>), whose flush hands the held packet to the
  muxer; \<open>esim_w3\<close> is the outcome of three writes into a sink with room for 15 bytes on
  a codec that holds nothing.
\<close>

definition enc_ready :: "int \<Rightarrow> SF_Encoder" where
  "enc_ready p = \<lparr>next_pts = p, input_format = SF_SAMPLE_FORMAT_S16, format_ctx = True, pb = True\<rparr>"

definition esim_w0 :: "esim world" where
  "esim_w0 = (esim_open True False 956,
     [(AvLogSetLevel, 0), (AvGuessFormat ''wav'', 1),
      (AvformatAllocOutputContext2, 1), (AvcodecFindEncoder, 1),
      (AvformatNewStream, 1), (AvcodecAllocContext3, 1),
      (AvChannelLayoutDefault 2, 0), (AvChannelLayoutCopy, 0),
      (CodecSetSampleRate 44100, 0), (CodecSetSampleFmt, 0), (AvcodecOpen2, 0),
      (AvcodecParametersFromContext, 0), (AvMalloc, 1),
      (AvioAllocContext True, 1), (AvformatWriteHeader, 0),
      (SwrAllocSetOpts2 AV_SAMPLE_FMT_S16 44100 AV_SAMPLE_FMT_S16 44100, 1), (SwrInit, 0),
      (AvPacketAlloc, 1), (AvFrameAlloc, 1)])"

definition esim_w1 :: "esim world" where
  "esim_w1 = ((esim_open True False 956)\<lparr>es_pending := [10]\<rparr>,
     [(AvFrameAlloc, 1), (AvChannelLayoutCopy, 0), (AvFrameGetBuffer 10, 0),
      (SwrConvertIn 10 10, 0),
      (AvcodecSendFrame (Some \<lparr>nb_samples = 10, pts = 0\<rparr>), 0),
      (AvcodecReceivePacket, AVERROR EAGAIN), (AvFrameFree, 0)])"

definition esim_w2 :: "esim world" where
  "esim_w2 = ((esim_open True False 938)\<lparr>es_flushed := True, es_packet := 10\<rparr>,
     [(AvcodecSendFrame None, 0), (AvcodecReceivePacket, 0),
      (AvPacketRescaleTs, 0), (PacketSetStreamIndex, 0),
      (AvInterleavedWriteFrame, 0), (AvPacketUnref, 0),
      (AvcodecReceivePacket, AVERROR_EOF),
      (AvWriteTrailer, 0), (AvcodecFreeContext, 0), (AvioFlush, 0),
      (AvFreep, 0), (AvioContextFree, 0), (AvformatFreeContext, 0),
      (AvPacketFree, 0), (AvFrameFree, 0), (SwrFree, 0)])"

definition esim_w3 :: "esim world" where
  "esim_w3 = ((esim_open False False 0)\<lparr>es_packet := 20\<rparr>,
     [(AvFrameAlloc, 1), (AvChannelLayoutCopy, 0), (AvFrameGetBuffer 10, 0),
      (SwrConvertIn 10 10, 0),
      (AvcodecSendFrame (Some \<lparr>nb_samples = 10, pts = 100\<rparr>), 0),
      (AvcodecReceivePacket, 0), (AvPacketRescaleTs, 0),
      (PacketSetStreamIndex, 0), (AvInterleavedWriteFrame, 0),
      (AvPacketUnref, 0), (AvcodecReceivePacket, AVERROR EAGAIN), (AvFrameFree, 0),
      (AvFrameAlloc, 1), (AvChannelLayoutCopy, 0), (AvFrameGetBuffer 20, 0),
      (SwrConvertIn 20 20, 0),
      (AvcodecSendFrame (Some \<lparr>nb_samples = 20, pts = 110\<rparr>), 0),
      (AvcodecReceivePacket, 0), (AvPacketRescaleTs, 0),
      (PacketSetStreamIndex, 0), (AvInterleavedWriteFrame, AVERROR EIO),
      (AvPacketUnref, 0), (AvFrameFree, 0)])"

section \<open>Evaluation and basic facts\<close>

lemmas av_codes = AVERROR_def EAGAIN_def EIO_def EINVAL_def AVERROR_EOF_def AVERROR_INVALIDDATA_def

lemmas sim_eval = sim_engine_def sim_open_def sim_decoder_def av_def av_codes c_int_def c_uint32_def

lemmas esim_eval = esim_engine_def esim_open_def esim_mux_def sink_write_def
  write_packet_callback_def c_size_t_def c_int_def c_int64_def av_def av_codes

lemma av_log: "av eng c w = (r, w') \<Longrightarrow> snd w' = snd w @ [(c, r)]"
  by (auto simp: av_def split: prod.splits)

lemma c_int_le: "0 \<le> x \<Longrightarrow> c_int x \<le> x"
  by (simp add: c_int_def sint_sbintrunc' signed_take_bit_int_less_eq_self_iff)

lemma c_int_id: "0 \<le> x \<Longrightarrow> x < 2 ^ 31 \<Longrightarrow> c_int x = x"
  by (simp add: c_int_def sint_sbintrunc' signed_take_bit_int_eq_self)

section \<open>Sample format translator: properties\<close>

text \<open>
  C7. The translator is a total mapping. Forward: U8, S16, S32 and F32 map to the
  engine's formats of the same name and S24 maps to the engine's 32-bit signed format.
  Reverse: the interleaved and the planar engine format of one bit depth map to the
  same PCM format, and every other engine format (double, 64-bit, none) maps to
  \<open>SF_SAMPLE_FORMAT_UNKNOWN\<close>.
\<close>

theorem sample_format_translator:
  "to_ffmpeg_sample_format SF_SAMPLE_FORMAT_U8 = AV_SAMPLE_FMT_U8
   \<and> to_ffmpeg_sample_format SF_SAMPLE_FORMAT_S16 = AV_SAMPLE_FMT_S16
   \<and> to_ffmpeg_sample_format SF_SAMPLE_FORMAT_S24 = AV_SAMPLE_FMT_S32
   \<and> to_ffmpeg_sample_format SF_SAMPLE_FORMAT_S32 = AV_SAMPLE_FMT_S32
   \<and> to_ffmpeg_sample_format SF_SAMPLE_FORMAT_F32 = AV_SAMPLE_FMT_FLT
   \<and> from_ffmpeg_sample_format f =
       (if f = AV_SAMPLE_FMT_U8 \<or> f = AV_SAMPLE_FMT_U8P then SF_SAMPLE_FORMAT_U8
        else if f = AV_SAMPLE_FMT_S16 \<or> f = AV_SAMPLE_FMT_S16P then SF_SAMPLE_FORMAT_S16
        else if f = AV_SAMPLE_FMT_S32 \<or> f = AV_SAMPLE_FMT_S32P then SF_SAMPLE_FORMAT_S32
        else if f = AV_SAMPLE_FMT_FLT \<or> f = AV_SAMPLE_FMT_FLTP then SF_SAMPLE_FORMAT_F32
        else SF_SAMPLE_FORMAT_UNKNOWN)
   \<and> from_ffmpeg_sample_format AV_SAMPLE_FMT_DBL = SF_SAMPLE_FORMAT_UNKNOWN
   \<and> from_ffmpeg_sample_format AV_SAMPLE_FMT_DBLP = SF_SAMPLE_FORMAT_UNKNOWN"
  by (cases f) simp_all

section \<open>Stream length: properties\<close>

text \<open>
  C4. The length of a stream that declares no duration of its own is taken from the
  container's duration, which is in units of \<open>1 / AV_TIME_BASE\<close> seconds. For a
  container of one second (\<open>1000000\<close> units) at 44100 Hz the function returns
  \<open>22675737\<close>: it multiplies by \<open>AV_TIME_BASE\<close> and divides by the sample rate. The
  rescaling to the sample rate, \<open>duration * sample_rate / AV_TIME_BASE\<close>, is 44100.
\<close>

theorem length_fallback_swaps_rescale_arguments:
  "sf_decoder_get_length_in_pcm_frames
     (Some \<lparr>has_format_ctx = True, lv_stream_index = 0, stream_duration = AV_NOPTS_VALUE,
            stream_time_base = (1, 44100), stream_sample_rate = 44100,
            format_duration = 1000000\<rparr>) = 22675737
   \<and> av_rescale 1000000 44100 AV_TIME_BASE = 44100"
  by (simp add: sf_decoder_get_length_in_pcm_frames_def AV_NOPTS_VALUE_def INT64_MIN_def
      INT64_MAX_def av_rescale_def AV_TIME_BASE_def)

theorem length_fallback_swaps_rescale_arguments_witness:
  "\<not> (\<not> True \<or> (0::int) < 0)
   \<and> sf_decoder_get_length_in_pcm_frames
       (Some \<lparr>has_format_ctx = True, lv_stream_index = 0, stream_duration = AV_NOPTS_VALUE,
              stream_time_base = (1, 44100), stream_sample_rate = 44100,
              format_duration = 1000000\<rparr>) \<noteq> 44100"
  using length_fallback_swaps_rescale_arguments by simp

section \<open>Decoder: argument validation\<close>

text \<open>
  C8, as the code has it. A read of zero frames, or of a negative number of frames, is
  rejected with \<open>SF_RESULT_ERROR_INVALID_ARGS\<close> for every decoder, whatever its target
  format: nothing is stored to \<^verbatim>\<open>*out_frames_read\<close> and the engine is not called.
\<close>

theorem zero_length_read_rejected:
  "frameCount \<le> 0 \<Longrightarrow>
   sf_decoder_read_pcm_frames eng decoder e pFramesOut frameCount out_frames_read
     = Some (SF_RESULT_ERROR_INVALID_ARGS, None, (e, []))"
  by (simp add: sf_decoder_read_pcm_frames_def split: option.splits)

theorem zero_length_read_rejected_witness:
  "(0::int) \<le> 0 \<and>
   sf_decoder_read_pcm_frames sim_engine (Some sim_decoder) (sim_open [(0, 4)] False) True 0 True
     = Some (SF_RESULT_ERROR_INVALID_ARGS, None, (sim_open [(0, 4)] False, []))"
  using zero_length_read_rejected
          [of 0 sim_engine "Some sim_decoder" "sim_open [(0, 4)] False" True True]
  by simp

text \<open>
  C8, as the claim states it, fails: on the reference engine \<^verbatim>\<open>sf_decoder_init\<close>
  with target format S16 succeeds, and the read of zero frames that follows returns
  \<open>SF_RESULT_ERROR_INVALID_ARGS\<close>, not success with zero frames.
\<close>

theorem zero_length_read_counterexample:
  "fst (sf_decoder_init sim_engine
          (Some \<lparr>stream_index = 0, target_bytes_per_sample = 0, target_channels = 0\<rparr>)
          SF_SAMPLE_FORMAT_S16 (sim_open [(0, 4)] False)) = SF_RESULT_SUCCESS
   \<and> fst (snd (sf_decoder_init sim_engine
          (Some \<lparr>stream_index = 0, target_bytes_per_sample = 0, target_channels = 0\<rparr>)
          SF_SAMPLE_FORMAT_S16 (sim_open [(0, 4)] False))) = Some sim_decoder
   \<and> sf_decoder_read_pcm_frames sim_engine (Some sim_decoder) (sim_open [(0, 4)] False)
        True 0 True
       \<noteq> Some (SF_RESULT_SUCCESS, Some 0, (sim_open [(0, 4)] False, []))
   \<and> map_option fst (sf_decoder_read_pcm_frames sim_engine (Some sim_decoder)
        (sim_open [(0, 4)] False) True 0 True) = Some SF_RESULT_ERROR_INVALID_ARGS"
  by (simp add: sf_decoder_init_def sf_decoder_read_pcm_frames_def sim_eval upt_rec)

section \<open>Decoder: failures abort the read\<close>

lemma av_fail_inv:
  assumes "av eng c w = (r, w1)" "\<not> checked_failure (c, r)" "fail_inv fr w"
  shows "fail_inv (fr + frames_of (c, r)) w1"
  using assms av_log[OF assms(1)] by (simp add: fail_inv_def frames_produced_def)

lemma av_fail_stop:
  assumes "av eng c w = (r, w1)" "checked_failure (c, r)" "fail_inv fr w"
  shows "failure_reported SF_RESULT_DECODER_ERROR_DECODING_FAILED fr (snd w1)"
  using assms av_log[OF assms(1)]
  by (auto simp: fail_inv_def failure_reported_def frames_produced_def frames_of_def
      checked_failure_def split: av_call.splits)

lemma fail_inv_success: "fail_inv fr w \<Longrightarrow> failure_reported SF_RESULT_SUCCESS fr (snd w)"
  by (simp add: fail_inv_def failure_reported_def)

lemma swr_fail_inv:
  assumes "av eng (SwrConvert off n inp) w = (r, w1)" "fail_inv fr w"
  shows "fail_inv (if 0 < r then fr + r else fr) w1"
proof -
  have f: "frames_of (SwrConvert off n inp, r) = (if 0 < r then r else 0)"
    by (auto simp: frames_of_def)
  have "fail_inv (fr + frames_of (SwrConvert off n inp, r)) w1"
    using av_fail_inv[OF assms(1) _ assms(2)] by (simp add: checked_failure_def)
  then show ?thesis unfolding f by (cases "0 < r") simp_all
qed

lemma drain_fail_inv:
  "fail_inv fr w \<Longrightarrow> drain_resampler eng d fc out_ptr fr w = (out_ptr', fr', w') \<Longrightarrow>
   fail_inv fr' w'"
proof (induction eng d fc out_ptr fr w rule: drain_resampler.induct)
  case (1 eng d frameCount out_ptr frames_read w)
  obtain r w1 where
    call: "av eng (SwrConvert out_ptr (c_int (frameCount - frames_read)) False) w = (r, w1)"
    by (cases "av eng (SwrConvert out_ptr (c_int (frameCount - frames_read)) False) w")
  have step: "fail_inv (if 0 < r then frames_read + r else frames_read) w1"
    by (rule swr_fail_inv[OF call "1.prems"(1)])
  show ?case
  proof (cases "0 < r \<and> (if 0 < r then frames_read + r else frames_read) < frameCount")
    case True
    then show ?thesis
      using "1.IH"[OF call[symmetric] refl refl refl _ ] step "1.prems"(2) call
      by (subst (asm) drain_resampler.simps) (auto simp add: Let_def split: if_splits)
  next
    case False
    then show ?thesis
      using step "1.prems"(2) call
      by (subst (asm) drain_resampler.simps) (auto simp add: Let_def split: if_splits)
  qed
qed

lemma unrefs: "\<not> checked_failure (AvPacketUnref, u)" "frames_of (AvPacketUnref, u) = 0"
  by (simp_all add: checked_failure_def frames_of_def)

lemma read_loop_failure:
  "read_loop eng d fc out_ptr fr draining w = Some res \<Longrightarrow> fail_inv fr w \<Longrightarrow>
   failure_reported (fst res) (fst (snd res)) (snd (snd (snd res)))"
proof (induction eng d fc out_ptr fr draining w res
       rule: read_loop.raw_induct[rotated 1, consumes 1])
  case (1 rl eng d fc out_ptr fr draining w res)
  note IH = "1.IH" and body = "1.hyps" and inv = "1.prems"(1)
  show ?case
  proof (cases "fr < fc")
    case False
    then show ?thesis using body fail_inv_success[OF inv] by auto
  next
    case lt: True
    obtain ret w1 where rf: "av eng AvcodecReceiveFrame w = (ret, w1)"
      by (cases "av eng AvcodecReceiveFrame w")
    show ?thesis
    proof (cases "checked_failure (AvcodecReceiveFrame, ret)")
      case True
      then have "res = (SF_RESULT_DECODER_ERROR_DECODING_FAILED, fr, w1)"
        using body lt rf by (auto simp: checked_failure_def)
      then show ?thesis using av_fail_stop[OF rf True inv] by simp
    next
      case ok: False
      have inv1: "fail_inv fr w1"
        using av_fail_inv[OF rf ok inv] by (simp add: frames_of_def)
      obtain os w2 where sw: "av eng (SwrConvert out_ptr (c_int (fc - fr)) True) w1 = (os, w2)"
        by (cases "av eng (SwrConvert out_ptr (c_int (fc - fr)) True) w1")
      obtain u3 w3 where fu: "av eng AvFrameUnref w2 = (u3, w3)"
        by (cases "av eng AvFrameUnref w2")
      obtain o4 f4 w4 where dr: "drain_resampler eng d fc out_ptr fr w1 = (o4, f4, w4)"
        by (cases "drain_resampler eng d fc out_ptr fr w1")
      obtain u5 w5 where pu: "av eng AvPacketUnref w1 = (u5, w5)"
        by (cases "av eng AvPacketUnref w1")
      obtain rr w6 where rd: "av eng AvReadFrame w5 = (rr, w6)"
        by (cases "av eng AvReadFrame w5")
      have inv2: "fail_inv (if 0 < os then fr + os else fr) w2"
        by (rule swr_fail_inv[OF sw inv1])
      have inv3: "fail_inv (if 0 < os then fr + os else fr) w3"
        using av_fail_inv[OF fu _ inv2] by (simp add: checked_failure_def frames_of_def)
      have inv4: "fail_inv f4 w4" by (rule drain_fail_inv[OF inv1 dr])
      have inv5: "fail_inv fr w5"
        using av_fail_inv[OF pu _ inv1] by (simp add: checked_failure_def frames_of_def)
      consider (frame) "ret = 0" | (eof) "ret = AVERROR_EOF" "ret \<noteq> 0"
        | (drained) "ret = AVERROR EAGAIN" "ret \<noteq> 0" "ret \<noteq> AVERROR_EOF" "draining"
        | (more) "ret = AVERROR EAGAIN" "ret \<noteq> 0" "ret \<noteq> AVERROR_EOF" "\<not> draining"
        using ok by (cases draining) (auto simp: checked_failure_def av_codes)
      then show ?thesis
      proof cases
        case frame
        then have "rl eng d fc (if 0 < os then out_ptr + c_int (os * target_channels d * target_bytes_per_sample d) else out_ptr)
                     (if 0 < os then fr + os else fr) draining w3 = Some res"
          using body lt rf sw fu by (auto simp: Let_def)
        from IH[OF this inv3] show ?thesis .
      next
        case eof
        then have "res = (SF_RESULT_SUCCESS, f4, w4)"
          using body lt rf dr by (auto simp: Let_def)
        then show ?thesis using fail_inv_success[OF inv4] by simp
      next
        case drained
        then have "res = (SF_RESULT_SUCCESS, fr, w1)"
          using body lt rf by (auto simp: Let_def)
        then show ?thesis using fail_inv_success[OF inv1] by simp
      next
        case more
        show ?thesis
        proof (cases "checked_failure (AvReadFrame, rr)")
          case True
          then have "res = (SF_RESULT_DECODER_ERROR_DECODING_FAILED, fr, w6)"
            using body lt rf more pu rd by (auto simp: Let_def checked_failure_def)
          then show ?thesis using av_fail_stop[OF rd True inv5] by simp
        next
          case rok: False
          have inv6: "fail_inv fr w6"
            using av_fail_inv[OF rd rok inv5] by (simp add: frames_of_def)
          obtain sp w7 where sd: "av eng (AvcodecSendPacket True) w6 = (sp, w7)"
            by (cases "av eng (AvcodecSendPacket True) w6")
          obtain u8 w8 where pu2: "av eng AvPacketUnref w7 = (u8, w8)"
            by (cases "av eng AvPacketUnref w7")
          obtain u9 w9 where pu3: "av eng AvPacketUnref w6 = (u9, w9)"
            by (cases "av eng AvPacketUnref w6")
          obtain u10 w10 where sn: "av eng (AvcodecSendPacket False) w6 = (u10, w10)"
            by (cases "av eng (AvcodecSendPacket False) w6")
          have inv9: "fail_inv fr w9"
            using av_fail_inv[OF pu3 _ inv6] by (simp add: checked_failure_def frames_of_def)
          have inv10: "fail_inv fr w10"
            using av_fail_inv[OF sn _ inv6] by (simp add: checked_failure_def frames_of_def)
          consider (other) "rr = 0" "packet_stream_index eng (fst w6) \<noteq> stream_index d"
            | (ours) "rr = 0" "packet_stream_index eng (fst w6) = stream_index d"
            | (eoi) "rr = AVERROR_EOF" "rr \<noteq> 0"
            using rok by (auto simp: checked_failure_def av_codes)
          then show ?thesis
          proof cases
            case other
            then have "rl eng d fc out_ptr fr draining w9 = Some res"
              using body lt rf more pu rd pu3 by (auto simp: Let_def)
            from IH[OF this inv9] show ?thesis .
          next
            case eoi
            then have "rl eng d fc out_ptr fr True w10 = Some res"
              using body lt rf more pu rd sn by (auto simp: Let_def)
            from IH[OF this inv10] show ?thesis .
          next
            case ours
            show ?thesis
            proof (cases "sp < 0")
              case True
              then have res: "res = (SF_RESULT_DECODER_ERROR_DECODING_FAILED, fr, w8)"
                using body lt rf more pu rd sd pu2 ours by (auto simp: Let_def)
              have "failure_reported SF_RESULT_DECODER_ERROR_DECODING_FAILED fr (snd w7)"
                using av_fail_stop[OF sd _ inv6] True by (simp add: checked_failure_def)
              then have "failure_reported SF_RESULT_DECODER_ERROR_DECODING_FAILED fr (snd w8)"
                using av_log[OF pu2] unrefs[of u8]
                by (simp add: failure_reported_def frames_produced_def)
              then show ?thesis using res by simp
            next
              case False
              have inv7: "fail_inv fr w7"
                using av_fail_inv[OF sd _ inv6] False
                by (simp add: checked_failure_def frames_of_def)
              have inv8: "fail_inv fr w8"
                using av_fail_inv[OF pu2 _ inv7] by (simp add: checked_failure_def frames_of_def)
              have "rl eng d fc out_ptr fr draining w8 = Some res"
                using body lt rf more pu rd sd pu2 ours False by (auto simp: Let_def)
              from IH[OF this inv8] show ?thesis .
            qed
          qed
        qed
      qed
    qed
  qed
qed

text \<open>
  For every engine and every read with valid arguments that returns: the count stored to
  \<^verbatim>\<open>*out_frames_read\<close> is the number of frames that the calls of the log wrote into
  the caller's buffer, so that nothing written before a failure is taken back; if
  \<^verbatim>\<open>avcodec_receive_frame\<close> returned anything but 0, end of stream or \<^verbatim>\<open>EAGAIN\<close>, or
  \<^verbatim>\<open>av_read_frame\<close> anything but 0 or end of input, or the codec refused a data packet,
  the read returns \<open>SF_RESULT_DECODER_ERROR_DECODING_FAILED\<close> and that failure is the
  last call made, the release of the packet apart; if none of these happened the read
  returns \<open>SF_RESULT_SUCCESS\<close>. A failure of the request to drain is not among them.
\<close>

lemma read_reports_checked_failure:
  assumes "0 < frameCount"
    and "sf_decoder_read_pcm_frames eng (Some d) e True frameCount True = Some (r, out, (e', log))"
  shows "out = Some (frames_produced log)
       \<and> (list_ex checked_failure log \<longrightarrow>
            r = SF_RESULT_DECODER_ERROR_DECODING_FAILED
            \<and> checked_failure (last (filter (\<lambda>ev. fst ev \<noteq> AvPacketUnref) log)))
       \<and> (\<not> list_ex checked_failure log \<longrightarrow> r = SF_RESULT_SUCCESS)"
proof -
  from assms obtain n where
    loop: "read_loop eng d frameCount 0 0 False (e, []) = Some (r, n, (e', log))"
    and out: "out = Some n"
    by (auto simp: sf_decoder_read_pcm_frames_def)
  have "fail_inv 0 (e, [])" by (simp add: fail_inv_def frames_produced_def)
  from read_loop_failure[OF loop this] out show ?thesis
    by (auto simp: failure_reported_def)
qed

lemma read_reports_checked_failure_example:
  "(0::int) < 10
   \<and> sf_decoder_read_pcm_frames sim_engine (Some sim_decoder)
        (sim_open [(0, 4), (0, - 1)] False) True 10 True
     = Some (SF_RESULT_DECODER_ERROR_DECODING_FAILED, Some 4,
         (sim_open [] False,
          [(AvcodecReceiveFrame, AVERROR EAGAIN), (AvPacketUnref, 0), (AvReadFrame, 0),
           (AvcodecSendPacket True, 0), (AvPacketUnref, 0),
           (AvcodecReceiveFrame, 0), (SwrConvert 0 10 True, 4), (AvFrameUnref, 0),
           (AvcodecReceiveFrame, AVERROR EAGAIN), (AvPacketUnref, 0), (AvReadFrame, 0),
           (AvcodecSendPacket True, 0), (AvPacketUnref, 0),
           (AvcodecReceiveFrame, AVERROR_INVALIDDATA)]))
   \<and> checked_failure (AvcodecReceiveFrame, AVERROR_INVALIDDATA)"
proof -
  have lt: "(0::int) < 10" by simp
  have run: "sf_decoder_read_pcm_frames sim_engine (Some sim_decoder)
        (sim_open [(0, 4), (0, - 1)] False) True 10 True
     = Some (SF_RESULT_DECODER_ERROR_DECODING_FAILED, Some 4,
         (sim_open [] False,
          [(AvcodecReceiveFrame, AVERROR EAGAIN), (AvPacketUnref, 0), (AvReadFrame, 0),
           (AvcodecSendPacket True, 0), (AvPacketUnref, 0),
           (AvcodecReceiveFrame, 0), (SwrConvert 0 10 True, 4), (AvFrameUnref, 0),
           (AvcodecReceiveFrame, AVERROR EAGAIN), (AvPacketUnref, 0), (AvReadFrame, 0),
           (AvcodecSendPacket True, 0), (AvPacketUnref, 0),
           (AvcodecReceiveFrame, AVERROR_INVALIDDATA)]))"
    by (simp add: sf_decoder_read_pcm_frames_def read_loop.simps sim_eval)
  have f: "checked_failure (AvcodecReceiveFrame, AVERROR_INVALIDDATA)"
    by (simp add: checked_failure_def av_codes)
  from read_reports_checked_failure[OF lt run] lt run f show ?thesis by simp
qed

text \<open>
  C5 at the end of input, on a codec that fails the request to drain. The stream holds
  one packet of 4 frames and the read asks for 10. Once the container has reported end
  of input the wrapper calls \<^verbatim>\<open>avcodec_send_packet\<close> with a \<^verbatim>\<open>NULL\<close> packet; the codec
  returns \<^verbatim>\<open>AVERROR(ENOMEM)\<close>, a failure that is not \<^verbatim>\<open>EAGAIN\<close>; the wrapper drops the
  value, sets its draining flag, and returns \<open>SF_RESULT_SUCCESS\<close> with 4 frames when the
  codec next asks for input, not \<open>SF_RESULT_DECODER_ERROR_DECODING_FAILED\<close>. The result
  of the same call for a data packet, a few lines above, is checked.
\<close>

theorem failed_drain_request_is_ignored:
  "sf_decoder_read_pcm_frames sim_nodrain_engine (Some sim_decoder) (sim_open [(0, 4)] False)
     True 10 True
     = Some (SF_RESULT_SUCCESS, Some 4,
         (sim_open [] False,
          [(AvcodecReceiveFrame, AVERROR EAGAIN), (AvPacketUnref, 0), (AvReadFrame, 0),
           (AvcodecSendPacket True, 0), (AvPacketUnref, 0),
           (AvcodecReceiveFrame, 0), (SwrConvert 0 10 True, 4), (AvFrameUnref, 0),
           (AvcodecReceiveFrame, AVERROR EAGAIN), (AvPacketUnref, 0),
           (AvReadFrame, AVERROR_EOF), (AvcodecSendPacket False, AVERROR ENOMEM),
           (AvcodecReceiveFrame, AVERROR EAGAIN)]))
   \<and> AVERROR ENOMEM < 0 \<and> AVERROR ENOMEM \<noteq> AVERROR EAGAIN"
  by (simp add: sf_decoder_read_pcm_frames_def read_loop.simps sim_nodrain_engine_def
      sim_nodrain_exec_def ENOMEM_def sim_eval)

theorem failed_drain_request_is_ignored_witness:
  "\<not> (\<not> True \<or> \<not> True \<or> (10::int) \<le> 0)
   \<and> map_option (\<lambda>res. (fst res, fst (snd res)))
        (sf_decoder_read_pcm_frames sim_nodrain_engine (Some sim_decoder)
           (sim_open [(0, 4)] False) True 10 True)
       = Some (SF_RESULT_SUCCESS, Some 4)"
  using failed_drain_request_is_ignored by simp

section \<open>Decoder: the read stays within the request\<close>

lemma av_other_inv:
  assumes "av eng c w = (r, w1)" "\<And>off n inp. c \<noteq> SwrConvert off n inp"
    and "loop_inv d fc out_ptr fr w"
  shows "loop_inv d fc out_ptr fr w1"
  using assms
  by (cases c)
     (auto simp: av_def loop_inv_def write_within_def write_inside_def frames_produced_def
           frames_of_def split: prod.splits)

lemma swr_step_inv:
  assumes cap: "honours_capacity eng"
    and nn: "0 \<le> target_channels d" "0 \<le> target_bytes_per_sample d"
    and call: "av eng (SwrConvert out_ptr (c_int (fc - fr)) inp) w = (r, w1)"
    and inv: "loop_inv d fc out_ptr fr w"
  shows "loop_inv d fc
           (if 0 < r then out_ptr + c_int (r * target_channels d * target_bytes_per_sample d)
            else out_ptr)
           (if 0 < r then fr + r else fr) w1"
proof -
  let ?ch = "target_channels d" and ?bps = "target_bytes_per_sample d"
  have cb: "0 \<le> ?ch * ?bps" using nn by simp
  have log: "snd w1 = snd w @ [(SwrConvert out_ptr (c_int (fc - fr)) inp, r)]"
    using call by (rule av_log)
  show ?thesis
  proof (cases "0 < r")
    case False
    then show ?thesis using inv log
      by (simp add: loop_inv_def write_within_def write_inside_def frames_produced_def
          frames_of_def)
  next
    case True
    have "r = fst (av_exec eng (SwrConvert out_ptr (c_int (fc - fr)) inp) (fst w))"
      using call by (auto simp: av_def split: prod.splits)
    then have "r \<le> max 0 (c_int (fc - fr))"
      using cap by (simp add: honours_capacity_def)
    with True have r_le: "r \<le> c_int (fc - fr)" by simp
    have "c_int (fc - fr) \<le> fc - fr"
      using inv by (intro c_int_le) (simp add: loop_inv_def)
    with r_le have r_fc: "fr + r \<le> fc" by simp
    have pos: "0 \<le> r * ?ch * ?bps" using True nn by simp
    have adv: "c_int (r * ?ch * ?bps) \<le> r * ?ch * ?bps" using pos by (rule c_int_le)
    have o: "out_ptr \<le> fr * (?ch * ?bps)" using inv by (simp add: loop_inv_def mult.assoc)
    have fr0: "0 \<le> fr" using inv by (simp add: loop_inv_def)
    have "(fr + r) * (?ch * ?bps) \<le> fc * (?ch * ?bps)"
      using r_fc cb by (rule mult_right_mono)
    then have tot: "(fr + r) * ?ch * ?bps \<le> fc * ?ch * ?bps" by (simp add: mult.assoc)
    then have endb: "out_ptr + r * ?ch * ?bps \<le> fc * ?ch * ?bps"
      using o by (simp add: algebra_simps)
    have newo: "out_ptr + c_int (r * ?ch * ?bps) \<le> (fr + r) * ?ch * ?bps"
      using o adv by (simp add: algebra_simps)
    have small: "out_ptr + c_int (r * ?ch * ?bps) = (fr + r) * ?ch * ?bps \<and> 0 \<le> out_ptr"
      if lt: "fc * ?ch * ?bps < 2 ^ 31"
    proof -
      have eq: "out_ptr = fr * ?ch * ?bps" using inv lt by (simp add: loop_inv_def)
      have "0 \<le> fr * (?ch * ?bps)" using fr0 cb by (rule mult_nonneg_nonneg)
      then have o0: "0 \<le> out_ptr" using eq by (simp add: mult.assoc)
      have "r * ?ch * ?bps \<le> (fr + r) * ?ch * ?bps" using o0 eq by (simp add: algebra_simps)
      then have "r * ?ch * ?bps < 2 ^ 31" using tot lt by linarith
      then have "c_int (r * ?ch * ?bps) = r * ?ch * ?bps" using pos by (intro c_int_id)
      then show ?thesis using eq o0 by (simp add: algebra_simps)
    qed
    have A: "0 \<le> fr + r" "fr + r \<le> fc" using fr0 True r_fc by simp_all
    have C: "list_all (write_within d fc) (snd w1)"
      using inv log endb by (simp add: loop_inv_def write_within_def)
    have D: "frames_produced (snd w1) = fr + r"
      using inv log True by (simp add: loop_inv_def frames_produced_def frames_of_def)
    have E: "out_ptr + c_int (r * ?ch * ?bps) = (fr + r) * ?ch * ?bps
             \<and> list_all (write_inside d fc) (snd w1)"
      if lt: "fc * ?ch * ?bps < 2 ^ 31"
    proof -
      have "list_all (write_inside d fc) (snd w)" using inv lt by (simp add: loop_inv_def)
      then have "list_all (write_inside d fc) (snd w1)"
        using log endb small[OF lt] by (simp add: write_inside_def)
      then show ?thesis using small[OF lt] by simp
    qed
    show ?thesis using True A newo C D E
      by (simp add: loop_inv_def)
  qed
qed

lemma drain_inv:
  "honours_capacity eng \<Longrightarrow> 0 \<le> target_channels d \<Longrightarrow> 0 \<le> target_bytes_per_sample d \<Longrightarrow>
   loop_inv d fc out_ptr fr w \<Longrightarrow>
   drain_resampler eng d fc out_ptr fr w = (out_ptr', fr', w') \<Longrightarrow>
   loop_inv d fc out_ptr' fr' w'"
proof (induction eng d fc out_ptr fr w rule: drain_resampler.induct)
  case (1 eng d frameCount out_ptr frames_read w)
  obtain r w1 where
    call: "av eng (SwrConvert out_ptr (c_int (frameCount - frames_read)) False) w = (r, w1)"
    by (cases "av eng (SwrConvert out_ptr (c_int (frameCount - frames_read)) False) w")
  note step = swr_step_inv[OF "1.prems"(1-3) call "1.prems"(4)]
  show ?case
  proof (cases "0 < r \<and> (if 0 < r then frames_read + r else frames_read) < frameCount")
    case True
    then show ?thesis
      using "1.IH"[OF call[symmetric] refl refl refl _ "1.prems"(1-3)] step "1.prems"(5) call
      by (subst (asm) drain_resampler.simps) (auto simp add: Let_def split: if_splits)
  next
    case False
    then show ?thesis
      using step "1.prems"(5) call
      by (subst (asm) drain_resampler.simps) (auto simp add: Let_def split: if_splits)
  qed
qed

lemma read_loop_inv:
  "read_loop eng d fc out_ptr fr draining w = Some res \<Longrightarrow>
   honours_capacity eng \<Longrightarrow> 0 \<le> target_channels d \<Longrightarrow> 0 \<le> target_bytes_per_sample d \<Longrightarrow>
   loop_inv d fc out_ptr fr w \<Longrightarrow>
   (\<exists>out_ptr'. loop_inv d fc out_ptr' (fst (snd res)) (snd (snd res)))"
proof (induction eng d fc out_ptr fr draining w res
       rule: read_loop.raw_induct[rotated 1, consumes 1])
  case (1 rl eng d fc out_ptr fr draining w res)
  note IH = "1.IH" and body = "1.hyps" and cap = "1.prems"(1) and nn = "1.prems"(2,3)
    and inv = "1.prems"(4)
  show ?case
  proof (cases "fr < fc")
    case False
    then show ?thesis using body inv by auto
  next
    case lt: True
    obtain ret w1 where rf: "av eng AvcodecReceiveFrame w = (ret, w1)"
      by (cases "av eng AvcodecReceiveFrame w")
    have inv1: "loop_inv d fc out_ptr fr w1"
      using av_other_inv[OF rf _ inv] by simp
    obtain os w2 where sw: "av eng (SwrConvert out_ptr (c_int (fc - fr)) True) w1 = (os, w2)"
      by (cases "av eng (SwrConvert out_ptr (c_int (fc - fr)) True) w1")
    obtain u3 w3 where fu: "av eng AvFrameUnref w2 = (u3, w3)"
      by (cases "av eng AvFrameUnref w2")
    obtain o4 f4 w4 where dr: "drain_resampler eng d fc out_ptr fr w1 = (o4, f4, w4)"
      by (cases "drain_resampler eng d fc out_ptr fr w1")
    obtain u5 w5 where pu: "av eng AvPacketUnref w1 = (u5, w5)"
      by (cases "av eng AvPacketUnref w1")
    obtain rr w6 where rd: "av eng AvReadFrame w5 = (rr, w6)"
      by (cases "av eng AvReadFrame w5")
    obtain sp w7 where sd: "av eng (AvcodecSendPacket True) w6 = (sp, w7)"
      by (cases "av eng (AvcodecSendPacket True) w6")
    obtain u8 w8 where pu2: "av eng AvPacketUnref w7 = (u8, w8)"
      by (cases "av eng AvPacketUnref w7")
    obtain u9 w9 where pu3: "av eng AvPacketUnref w6 = (u9, w9)"
      by (cases "av eng AvPacketUnref w6")
    obtain u10 w10 where sn: "av eng (AvcodecSendPacket False) w6 = (u10, w10)"
      by (cases "av eng (AvcodecSendPacket False) w6")
    have inv2: "loop_inv d fc
           (if 0 < os then out_ptr + c_int (os * target_channels d * target_bytes_per_sample d)
            else out_ptr)
           (if 0 < os then fr + os else fr) w2"
      by (rule swr_step_inv[OF cap nn sw inv1])
    have inv3: "loop_inv d fc
           (if 0 < os then out_ptr + c_int (os * target_channels d * target_bytes_per_sample d)
            else out_ptr)
           (if 0 < os then fr + os else fr) w3"
      using av_other_inv[OF fu _ inv2] by simp
    have inv4: "loop_inv d fc o4 f4 w4"
      by (rule drain_inv[OF cap nn inv1 dr])
    have inv5: "loop_inv d fc out_ptr fr w5" using av_other_inv[OF pu _ inv1] by simp
    have inv6: "loop_inv d fc out_ptr fr w6" using av_other_inv[OF rd _ inv5] by simp
    have inv7: "loop_inv d fc out_ptr fr w7" using av_other_inv[OF sd _ inv6] by simp
    have inv8: "loop_inv d fc out_ptr fr w8" using av_other_inv[OF pu2 _ inv7] by simp
    have inv9: "loop_inv d fc out_ptr fr w9" using av_other_inv[OF pu3 _ inv6] by simp
    have inv10: "loop_inv d fc out_ptr fr w10" using av_other_inv[OF sn _ inv6] by simp
    note invs = inv1 inv3 inv4 inv6 inv8 inv9 inv10
    show ?thesis
      using body lt rf sw fu dr pu rd sd pu2 pu3 sn invs IH[OF _ cap nn]
      by (auto simp: Let_def split: if_splits)
  qed
qed

text \<open>
  For a read with valid arguments on an engine whose \<^verbatim>\<open>swr_convert\<close> honours its
  output capacity, on every return path, success or error: the count stored to
  \<^verbatim>\<open>*out_frames_read\<close> lies between 0 and \<open>frameCount\<close>, it is the number of frames the
  engine wrote into the caller's buffer, and every write ends at or before byte
  \<open>frameCount * target_channels * target_bytes_per_sample\<close> of the buffer. When that
  number of bytes is smaller than \<open>2 ^ 31\<close>, every write also starts at or after byte
  0: it lies inside the requested region.
\<close>

lemma read_stays_within_request:
  assumes "honours_capacity eng"
    and "0 \<le> target_channels d" and "0 \<le> target_bytes_per_sample d"
    and "0 < frameCount"
    and "sf_decoder_read_pcm_frames eng (Some d) e True frameCount True = Some (r, out, (e', log))"
  shows "\<exists>n. out = Some n \<and> 0 \<le> n \<and> n \<le> frameCount \<and> frames_produced log = n
             \<and> list_all (write_within d frameCount) log
             \<and> (frameCount * target_channels d * target_bytes_per_sample d < 2 ^ 31 \<longrightarrow>
                    list_all (write_inside d frameCount) log)"
proof -
  from assms(4,5) obtain n where
    loop: "read_loop eng d frameCount 0 0 False (e, []) = Some (r, n, (e', log))"
    and out: "out = Some n"
    by (auto simp: sf_decoder_read_pcm_frames_def)
  have "loop_inv d frameCount 0 0 (e, [])"
    using assms(4) by (simp add: loop_inv_def frames_produced_def)
  from read_loop_inv[OF loop assms(1-3) this] out show ?thesis
    by (auto simp: loop_inv_def)
qed

lemma sim_honours_capacity: "honours_capacity sim_engine"
  by (auto simp: honours_capacity_def sim_engine_def av_codes Let_def)

lemma read_stays_within_request_example:
  "honours_capacity sim_engine \<and> 0 \<le> target_channels sim_decoder
   \<and> 0 \<le> target_bytes_per_sample sim_decoder \<and> (0::int) < 3
   \<and> sf_decoder_read_pcm_frames sim_engine (Some sim_decoder) (sim_open [(0, 4)] False) True 3 True
       = Some (SF_RESULT_SUCCESS, Some 3,
            ((sim_open [] False)\<lparr>sim_swr := 1\<rparr>,
             [(AvcodecReceiveFrame, - 11), (AvPacketUnref, 0), (AvReadFrame, 0),
              (AvcodecSendPacket True, 0), (AvPacketUnref, 0),
              (AvcodecReceiveFrame, 0), (SwrConvert 0 3 True, 3), (AvFrameUnref, 0)]))
   \<and> 3 * target_channels sim_decoder * target_bytes_per_sample sim_decoder < 2 ^ 31
   \<and> list_all (write_inside sim_decoder 3)
        [(AvcodecReceiveFrame, - 11), (AvPacketUnref, 0), (AvReadFrame, 0),
         (AvcodecSendPacket True, 0), (AvPacketUnref, 0),
         (AvcodecReceiveFrame, 0), (SwrConvert 0 3 True, 3), (AvFrameUnref, 0)]"
proof -
  have h1: "honours_capacity sim_engine" by (rule sim_honours_capacity)
  have h2: "0 \<le> target_channels sim_decoder" "0 \<le> target_bytes_per_sample sim_decoder"
    by (simp_all add: sim_decoder_def)
  have h3: "(0::int) < 3" by simp
  have h4: "sf_decoder_read_pcm_frames sim_engine (Some sim_decoder) (sim_open [(0, 4)] False) True 3 True
       = Some (SF_RESULT_SUCCESS, Some 3,
            ((sim_open [] False)\<lparr>sim_swr := 1\<rparr>,
             [(AvcodecReceiveFrame, - 11), (AvPacketUnref, 0), (AvReadFrame, 0),
              (AvcodecSendPacket True, 0), (AvPacketUnref, 0),
              (AvcodecReceiveFrame, 0), (SwrConvert 0 3 True, 3), (AvFrameUnref, 0)]))"
    by (simp add: sf_decoder_read_pcm_frames_def read_loop.simps sim_eval)
  have h5: "3 * target_channels sim_decoder * target_bytes_per_sample sim_decoder < 2 ^ 31"
    by (simp add: sim_decoder_def)
  from read_stays_within_request[OF h1 h2 h3 h4] h1 h2 h3 h4 h5 show ?thesis by blast
qed

text \<open>
  C9 at a request of \<open>2 ^ 29 + 8\<close> frames of stereo 16-bit output (a region of
  2147483680 bytes), on a stream with a packet of \<open>2 ^ 29\<close> frames and a packet of 3
  frames. The first conversion writes \<open>2 ^ 29\<close> frames at byte 0. The cursor is then
  advanced by \<^verbatim>\<open>out_samples * target_channels * target_bytes_per_sample\<close>, a product of
  three \<^verbatim>\<open>int\<close>s that is \<open>2 ^ 31\<close> and wraps to \<open>- (2 ^ 31)\<close>, so the second
  conversion writes its 3 frames at byte offset \<open>- 2147483648\<close>, before the caller's
  buffer. The read returns \<open>SF_RESULT_SUCCESS\<close> with 536870915 frames.
\<close>

theorem large_read_writes_before_buffer:
  "sf_decoder_read_pcm_frames sim_engine (Some sim_decoder)
     (sim_open [(0, 536870912), (0, 3)] False) True 536870920 True
     = Some (SF_RESULT_SUCCESS, Some 536870915,
         ((sim_open [] False)\<lparr>sim_draining := True\<rparr>,
          [(AvcodecReceiveFrame, AVERROR EAGAIN), (AvPacketUnref, 0), (AvReadFrame, 0),
           (AvcodecSendPacket True, 0), (AvPacketUnref, 0),
           (AvcodecReceiveFrame, 0), (SwrConvert 0 536870920 True, 536870912),
           (AvFrameUnref, 0), (AvcodecReceiveFrame, AVERROR EAGAIN), (AvPacketUnref, 0),
           (AvReadFrame, 0), (AvcodecSendPacket True, 0), (AvPacketUnref, 0),
           (AvcodecReceiveFrame, 0), (SwrConvert (- 2147483648) 8 True, 3),
           (AvFrameUnref, 0), (AvcodecReceiveFrame, AVERROR EAGAIN), (AvPacketUnref, 0),
           (AvReadFrame, AVERROR_EOF), (AvcodecSendPacket False, 0),
           (AvcodecReceiveFrame, AVERROR_EOF),
           (SwrConvert (- 2147483636) 5 False, 0)]))
   \<and> \<not> write_inside sim_decoder 536870920 (SwrConvert (- 2147483648) 8 True, 3)"
  by (simp add: sf_decoder_read_pcm_frames_def read_loop.simps drain_resampler.simps sim_eval
      write_inside_def)

theorem large_read_writes_before_buffer_witness:
  "\<not> (\<not> True \<or> \<not> True \<or> (536870920::int) \<le> 0)
   \<and> map_option (\<lambda>res. (fst res, fst (snd res)))
        (sf_decoder_read_pcm_frames sim_engine (Some sim_decoder)
           (sim_open [(0, 536870912), (0, 3)] False) True 536870920 True)
       = Some (SF_RESULT_SUCCESS, Some 536870915)"
  using large_read_writes_before_buffer by simp

section \<open>Decoder: end of stream\<close>

lemma sum_list_nonneg_int: "\<forall>n \<in> set xs. (0::int) \<le> n \<Longrightarrow> 0 \<le> sum_list xs"
  by (induction xs) auto

lemma remaining_parts:
  assumes "wf_sim s"
  shows "0 \<le> sum_list (sim_codec s)"
    and "0 \<le> sum_list (map snd (filter (\<lambda>p. fst p = i) (sim_packets s)))"
    and "0 \<le> sim_swr s"
  using assms by (auto simp: wf_sim_def intro!: sum_list_nonneg_int)

lemma sim_drain:
  assumes "0 \<le> sim_swr s" "fr + sim_swr s < fc" "fc - fr < 2 ^ 31"
  shows "\<exists>out' log'. drain_resampler sim_engine d fc out fr (s, log)
           = (out', fr + sim_swr s, (s\<lparr>sim_swr := 0\<rparr>, log'))"
proof -
  have cap: "c_int (fc - fr) = fc - fr" using assms by (intro c_int_id) auto
  show ?thesis
  proof (cases "0 < sim_swr s")
    case False
    then have z: "sim_swr s = 0" using assms(1) by simp
    show ?thesis
      using z assms cap
      by (subst drain_resampler.simps) (simp add: sim_engine_def av_def Let_def min_def)
  next
    case True
    have cap2: "c_int (fc - (fr + sim_swr s)) = fc - (fr + sim_swr s)"
      using assms True by (intro c_int_id) auto
    show ?thesis
      using True assms cap cap2
      apply (subst drain_resampler.simps)
      apply (simp add: sim_engine_def av_def Let_def min_def)
      apply (subst drain_resampler.simps)
      apply (simp add: sim_engine_def av_def Let_def min_def)
      done
  qed
qed

lemma sim_read_loop:
  "wf_sim s \<Longrightarrow> fr + frames_remaining (stream_index d) s < fc \<Longrightarrow> fc - fr < 2 ^ 31 \<Longrightarrow>
   (dr \<longrightarrow> sim_draining s) \<Longrightarrow>
   \<exists>s' log'. read_loop sim_engine d fc out fr dr (s, log)
       = Some (SF_RESULT_SUCCESS, fr + frames_remaining (stream_index d) s, (s', log'))
     \<and> wf_sim s' \<and> frames_remaining (stream_index d) s' = 0"
proof (induction "2 * length (sim_packets s) + length (sim_codec s) + (if sim_draining s then 0 else 1)"
       arbitrary: s fr dr out log rule: less_induct)
  case less
  let ?i = "stream_index d"
  note wf = less.prems(1) and bound = less.prems(2) and small = less.prems(3) and dr = less.prems(4)
  note parts = remaining_parts(1,3)[OF wf] remaining_parts(2)[OF wf, of ?i]
  have rem_nn: "0 \<le> frames_remaining ?i s"
    using parts by (simp add: frames_remaining_def)
  have lt: "fr < fc" using bound rem_nn by simp
  have cap: "c_int (fc - fr) = fc - fr" using lt small by (intro c_int_id) auto
  have codes: "AVERROR_EOF \<noteq> 0" "AVERROR EAGAIN \<noteq> 0" "AVERROR EAGAIN \<noteq> AVERROR_EOF"
    by (simp_all add: av_codes)
  show ?case
  proof (cases "sim_codec s")
    case (Cons n ns)
    let ?b = "sim_swr s + n"
    let ?s3 = "s\<lparr>sim_codec := ns, sim_swr := 0, sim_frame := 0\<rparr>"
    have n0: "0 \<le> n" "\<forall>m \<in> set ns. 0 \<le> m" using wf Cons by (auto simp: wf_sim_def)
    have nsn: "0 \<le> sum_list ns" using n0(2) by (rule sum_list_nonneg_int)
    have b_le: "?b \<le> fc - fr" "0 \<le> ?b"
      using bound parts n0 nsn Cons by (auto simp: frames_remaining_def)
    have wf3: "wf_sim ?s3" using wf Cons by (auto simp: wf_sim_def)
    have rem3: "frames_remaining ?i ?s3 = frames_remaining ?i s - ?b"
      using Cons by (simp add: frames_remaining_def)
    have m3: "2 * length (sim_packets ?s3) + length (sim_codec ?s3) + (if sim_draining ?s3 then 0 else 1)
            < 2 * length (sim_packets s) + length (sim_codec s) + (if sim_draining s then 0 else 1)"
      using Cons by simp
    have mn: "min (fc - fr) ?b = ?b" using b_le by simp
    have step: "\<exists>out' log'. read_loop sim_engine d fc out fr dr (s, log)
                  = read_loop sim_engine d fc out' (fr + ?b) dr (?s3, log')"
    proof (cases "0 < ?b")
      case True
      show ?thesis
        apply (rule exI[where x="out + c_int (?b * target_channels d * target_bytes_per_sample d)"])
        apply (rule exI[where x="log @ [(AvcodecReceiveFrame, 0), (SwrConvert out (fc - fr) True, ?b),
                                       (AvFrameUnref, 0)]"])
        using lt cap Cons n0 b_le True mn
        by (subst read_loop.simps) (simp add: sim_engine_def av_def Let_def)
    next
      case False
      then have z: "?b = 0" using b_le by simp
      show ?thesis
        apply (rule exI[where x=out])
        apply (rule exI[where x="log @ [(AvcodecReceiveFrame, 0), (SwrConvert out (fc - fr) True, 0),
                                       (AvFrameUnref, 0)]"])
        using lt cap Cons n0 b_le z mn
        by (subst read_loop.simps) (simp add: sim_engine_def av_def Let_def)
    qed
    then obtain out' log' where step':
      "read_loop sim_engine d fc out fr dr (s, log)
         = read_loop sim_engine d fc out' (fr + ?b) dr (?s3, log')"
      by blast
    have "\<exists>s' log''. read_loop sim_engine d fc out' (fr + ?b) dr (?s3, log')
       = Some (SF_RESULT_SUCCESS, fr + ?b + frames_remaining ?i ?s3, (s', log''))
     \<and> wf_sim s' \<and> frames_remaining ?i s' = 0"
      using less.hyps[where s="?s3" and fr="fr + ?b" and dr=dr and out=out' and log=log', OF m3 wf3] rem3 bound small b_le dr by simp
    then show ?thesis using step' rem3 by simp
  next
    case Nil
    show ?thesis
    proof (cases "sim_draining s")
      case True
      then have pk: "sim_packets s = []" using wf by (simp add: wf_sim_def)
      have rem: "frames_remaining ?i s = sim_swr s"
        using Nil pk by (simp add: frames_remaining_def)
      from sim_drain[of s fr fc d out "log @ [(AvcodecReceiveFrame, AVERROR_EOF)]"] parts bound small rem
      obtain out' log' where
        dres: "drain_resampler sim_engine d fc out fr (s, log @ [(AvcodecReceiveFrame, AVERROR_EOF)])
                 = (out', fr + sim_swr s, (s\<lparr>sim_swr := 0\<rparr>, log'))"
        by auto
      have "read_loop sim_engine d fc out fr dr (s, log)
              = Some (SF_RESULT_SUCCESS, fr + sim_swr s, (s\<lparr>sim_swr := 0\<rparr>, log'))"
        using lt Nil True codes dres
        by (subst read_loop.simps) (simp add: sim_engine_def av_def Let_def)
      moreover have "wf_sim (s\<lparr>sim_swr := 0\<rparr>)" using wf by (simp add: wf_sim_def)
      moreover have "frames_remaining ?i (s\<lparr>sim_swr := 0\<rparr>) = 0"
        using Nil pk by (simp add: frames_remaining_def)
      ultimately show ?thesis using rem by auto
    next
      case nd: False
      then have ndr: "\<not> dr" using dr by auto
      have nio: "\<not> sim_io_error s" using wf by (simp add: wf_sim_def)
      show ?thesis
      proof (cases "sim_packets s")
        case pn: Nil
        let ?s2 = "s\<lparr>sim_packet := None, sim_draining := True\<rparr>"
        have step: "read_loop sim_engine d fc out fr dr (s, log)
           = read_loop sim_engine d fc out fr True (?s2,
               log @ [(AvcodecReceiveFrame, AVERROR EAGAIN), (AvPacketUnref, 0),
                      (AvReadFrame, AVERROR_EOF), (AvcodecSendPacket False, 0)])"
          using lt Nil nd ndr nio pn codes
          by (subst read_loop.simps) (simp add: sim_engine_def av_def Let_def)
        have wf2: "wf_sim ?s2" using wf pn by (simp add: wf_sim_def)
        have rem2: "frames_remaining ?i ?s2 = frames_remaining ?i s"
          by (simp add: frames_remaining_def)
        have m2: "2 * length (sim_packets ?s2) + length (sim_codec ?s2) + (if sim_draining ?s2 then 0 else 1)
            < 2 * length (sim_packets s) + length (sim_codec s) + (if sim_draining s then 0 else 1)"
          using nd by simp
        from less.hyps[where s="?s2" and fr=fr and dr=True and out=out, OF m2 wf2] rem2 bound small
        show ?thesis unfolding step by simp
      next
        case (Cons p ps)
        have p0: "0 \<le> snd p" using wf Cons by (simp add: wf_sim_def)
        show ?thesis
        proof (cases "fst p = ?i")
          case True
          let ?s2 = "s\<lparr>sim_packets := ps, sim_codec := [snd p], sim_packet := None\<rparr>"
          have step: "read_loop sim_engine d fc out fr dr (s, log)
             = read_loop sim_engine d fc out fr dr (?s2,
                 log @ [(AvcodecReceiveFrame, AVERROR EAGAIN), (AvPacketUnref, 0),
                        (AvReadFrame, 0), (AvcodecSendPacket True, 0), (AvPacketUnref, 0)])"
            using lt Nil nd ndr Cons codes True p0
            by (subst read_loop.simps) (simp add: sim_engine_def av_def Let_def)
          have wf2: "wf_sim ?s2" using wf Cons nd p0 by (auto simp: wf_sim_def)
          have rem2: "frames_remaining ?i ?s2 = frames_remaining ?i s"
            using Nil Cons True by (simp add: frames_remaining_def)
          have m2: "2 * length (sim_packets ?s2) + length (sim_codec ?s2) + (if sim_draining ?s2 then 0 else 1)
              < 2 * length (sim_packets s) + length (sim_codec s) + (if sim_draining s then 0 else 1)"
            using Cons Nil by simp
          from less.hyps[where s="?s2" and fr=fr and dr=dr and out=out, OF m2 wf2] rem2 bound small dr
          show ?thesis unfolding step by simp
        next
          case False
          let ?s2 = "s\<lparr>sim_packets := ps, sim_packet := None\<rparr>"
          have step: "read_loop sim_engine d fc out fr dr (s, log)
             = read_loop sim_engine d fc out fr dr (?s2,
                 log @ [(AvcodecReceiveFrame, AVERROR EAGAIN), (AvPacketUnref, 0),
                        (AvReadFrame, 0), (AvPacketUnref, 0)])"
            using lt Nil nd ndr Cons codes False
            by (subst read_loop.simps) (simp add: sim_engine_def av_def Let_def)
          have wf2: "wf_sim ?s2" using wf Cons nd by (auto simp: wf_sim_def)
          have rem2: "frames_remaining ?i ?s2 = frames_remaining ?i s"
            using Cons False by (simp add: frames_remaining_def)
          have m2: "2 * length (sim_packets ?s2) + length (sim_codec ?s2) + (if sim_draining ?s2 then 0 else 1)
              < 2 * length (sim_packets s) + length (sim_codec s) + (if sim_draining s then 0 else 1)"
            using Cons by simp
          from less.hyps[where s="?s2" and fr=fr and dr=dr and out=out, OF m2 wf2] rem2 bound small dr
          show ?thesis unfolding step by simp
        qed
      qed
    qed
  qed
qed

text \<open>
  On the reference engine, a request of fewer than \<open>2 ^ 31\<close> frames that is larger than
  what the stream can still produce returns success with exactly the remaining frames
  and leaves nothing behind, so that the same holds for the next read, which returns
  zero frames.
\<close>

lemma sim_read_to_end:
  assumes "wf_sim s" and "frames_remaining (stream_index d) s < frameCount"
    and "frameCount < 2 ^ 31"
  shows "\<exists>s' log. sf_decoder_read_pcm_frames sim_engine (Some d) s True frameCount True
           = Some (SF_RESULT_SUCCESS, Some (frames_remaining (stream_index d) s), (s', log))
         \<and> wf_sim s' \<and> frames_remaining (stream_index d) s' = 0"
proof -
  have "0 \<le> frames_remaining (stream_index d) s"
    using remaining_parts(1,3)[OF assms(1)] remaining_parts(2)[OF assms(1), of "stream_index d"]
    by (simp add: frames_remaining_def)
  then have pos: "0 < frameCount" using assms(2) by simp
  from sim_read_loop[where s=s and fr=0 and d=d and fc=frameCount and dr=False and out=0 and log="[]", OF assms(1)] assms(2,3)
  obtain s' log' where
    "read_loop sim_engine d frameCount 0 0 False (s, [])
       = Some (SF_RESULT_SUCCESS, frames_remaining (stream_index d) s, (s', log'))"
    "wf_sim s'" "frames_remaining (stream_index d) s' = 0"
    by auto
  then show ?thesis using pos by (auto simp: sf_decoder_read_pcm_frames_def)
qed

text \<open>
  C1 at a request of \<open>2 ^ 32\<close> frames. The stream of the reference engine has one
  packet of five frames, so five frames remain and the request is larger. The capacity
  passed to \<^verbatim>\<open>swr_convert\<close> is \<^verbatim>\<open>(int)(frameCount - frames_read)\<close>, which is 0: the
  resampler keeps all five frames, the drain at end of stream flushes with capacity 0,
  and the read returns success with zero frames. The five frames are still in the
  resampler, and the next read, of ten frames, returns them.
\<close>

theorem oversized_request_reads_nothing:
  "frames_remaining 0 (sim_open [(0, 5)] False) = 5
   \<and> sf_decoder_read_pcm_frames sim_engine (Some sim_decoder) (sim_open [(0, 5)] False)
        True 4294967296 True
       = Some (SF_RESULT_SUCCESS, Some 0,
            ((sim_open [] False)\<lparr>sim_draining := True, sim_swr := 5\<rparr>,
             [(AvcodecReceiveFrame, AVERROR EAGAIN), (AvPacketUnref, 0), (AvReadFrame, 0),
              (AvcodecSendPacket True, 0), (AvPacketUnref, 0),
              (AvcodecReceiveFrame, 0), (SwrConvert 0 0 True, 0), (AvFrameUnref, 0),
              (AvcodecReceiveFrame, AVERROR EAGAIN), (AvPacketUnref, 0),
              (AvReadFrame, AVERROR_EOF), (AvcodecSendPacket False, 0),
              (AvcodecReceiveFrame, AVERROR_EOF), (SwrConvert 0 0 False, 0)]))
   \<and> sf_decoder_read_pcm_frames sim_engine (Some sim_decoder)
        ((sim_open [] False)\<lparr>sim_draining := True, sim_swr := 5\<rparr>) True 10 True
       = Some (SF_RESULT_SUCCESS, Some 5,
            ((sim_open [] False)\<lparr>sim_draining := True\<rparr>,
             [(AvcodecReceiveFrame, AVERROR_EOF), (SwrConvert 0 10 False, 5),
              (SwrConvert 20 5 False, 0)]))"
  by (simp add: sf_decoder_read_pcm_frames_def read_loop.simps drain_resampler.simps
      frames_remaining_def sim_eval)

theorem oversized_request_reads_nothing_witness:
  "\<not> (\<not> True \<or> \<not> True \<or> (4294967296::int) \<le> 0)
   \<and> map_option (\<lambda>res. (fst res, fst (snd res)))
        (sf_decoder_read_pcm_frames sim_engine (Some sim_decoder) (sim_open [(0, 5)] False)
           True 4294967296 True)
       = Some (SF_RESULT_SUCCESS, Some 0)
   \<and> frames_remaining 0 (sim_open [(0, 5)] False) \<noteq> 0"
  using oversized_request_reads_nothing by simp

section \<open>Encoder: what a log of the encode loop contains\<close>

lemma c_int64_id: "- (2 ^ 63) \<le> x \<Longrightarrow> x < 2 ^ 63 \<Longrightarrow> c_int64 x = x"
  by (simp add: c_int64_def sint_sbintrunc' signed_take_bit_int_eq_self)

lemma encode_loop_log:
  "encode_loop eng ret w = Some res \<Longrightarrow>
   \<exists>ext. snd (snd res) = snd w @ ext \<and> fst ` set ext \<subseteq> loop_calls
        \<and> (\<forall>x. (AvInterleavedWriteFrame, x) \<in> set ext \<and> x < 0 \<longrightarrow> fst res = x)
        \<and> (\<forall>x. (AvcodecReceivePacket, x) \<in> set ext \<and> x < 0 \<and> x \<noteq> AVERROR EAGAIN
                 \<and> x \<noteq> AVERROR_EOF \<longrightarrow> fst res = x)"
proof (induction eng ret w res rule: encode_loop.raw_induct[rotated 1, consumes 1])
  case (1 el eng ret w res)
  note IH = "1.IH" and body = "1.hyps"
  show ?case
  proof (cases "0 \<le> ret")
    case False
    then show ?thesis using body by auto
  next
    case ge: True
    obtain r1 w1 where c1: "av eng AvcodecReceivePacket w = (r1, w1)"
      by (cases "av eng AvcodecReceivePacket w")
    obtain u2 w2 where c2: "av eng AvPacketRescaleTs w1 = (u2, w2)"
      by (cases "av eng AvPacketRescaleTs w1")
    obtain u3 w3 where c3: "av eng PacketSetStreamIndex w2 = (u3, w3)"
      by (cases "av eng PacketSetStreamIndex w2")
    obtain wr w4 where c4: "av eng AvInterleavedWriteFrame w3 = (wr, w4)"
      by (cases "av eng AvInterleavedWriteFrame w3")
    obtain u5 w5 where c5: "av eng AvPacketUnref w4 = (u5, w5)"
      by (cases "av eng AvPacketUnref w4")
    note logs = av_log[OF c1] av_log[OF c2] av_log[OF c3] av_log[OF c4] av_log[OF c5]
    have l5: "snd w5 = snd w @ [(AvcodecReceivePacket, r1), (AvPacketRescaleTs, u2),
                (PacketSetStreamIndex, u3), (AvInterleavedWriteFrame, wr), (AvPacketUnref, u5)]"
      using logs by simp
    consider (stop) "r1 = AVERROR EAGAIN \<or> r1 = AVERROR_EOF" | (err) "\<not> (r1 = AVERROR EAGAIN \<or> r1 = AVERROR_EOF)" "r1 < 0"
      | (wfail) "\<not> (r1 = AVERROR EAGAIN \<or> r1 = AVERROR_EOF)" "\<not> r1 < 0" "wr < 0"
      | (again) "\<not> (r1 = AVERROR EAGAIN \<or> r1 = AVERROR_EOF)" "\<not> r1 < 0" "\<not> wr < 0"
      by blast
    then show ?thesis
    proof cases
      case stop
      then have "res = (0, w1)" using body ge c1 by (auto simp: Let_def)
      then show ?thesis using logs(1) stop by (auto simp add: loop_calls_def)
    next
      case err
      then have "res = (r1, w1)" using body ge c1 by (auto simp: Let_def)
      then show ?thesis using logs(1) by (auto simp add: loop_calls_def)
    next
      case wfail
      then have "res = (wr, w5)" using body ge c1 c2 c3 c4 c5 by (auto simp: Let_def)
      then show ?thesis using l5 wfail by (auto simp add: loop_calls_def)
    next
      case again
      then have "el eng r1 w5 = Some res" using body ge c1 c2 c3 c4 c5 by (auto simp: Let_def)
      from IH[OF this] obtain ext where
        e: "snd (snd res) = snd w5 @ ext" "fst ` set ext \<subseteq> loop_calls"
           "\<forall>x. (AvInterleavedWriteFrame, x) \<in> set ext \<and> x < 0 \<longrightarrow> fst res = x"
           "\<forall>x. (AvcodecReceivePacket, x) \<in> set ext \<and> x < 0 \<and> x \<noteq> AVERROR EAGAIN
                 \<and> x \<noteq> AVERROR_EOF \<longrightarrow> fst res = x"
        by blast
      show ?thesis
        apply (rule exI[where x="[(AvcodecReceivePacket, r1), (AvPacketRescaleTs, u2),
                (PacketSetStreamIndex, u3), (AvInterleavedWriteFrame, wr), (AvPacketUnref, u5)] @ ext"])
        using e l5 again by (auto simp: loop_calls_def)
    qed
  qed
qed

lemma encode_and_write_log:
  assumes "encode_and_write eng frame w = Some (ret, w')"
  shows "\<exists>r0 ext. snd w' = snd w @ (AvcodecSendFrame frame, r0) # ext \<and> fst ` set ext \<subseteq> loop_calls
        \<and> (r0 < 0 \<longrightarrow> ret = r0)
        \<and> (\<forall>x. (AvInterleavedWriteFrame, x) \<in> set ext \<and> x < 0 \<longrightarrow> ret = x)
        \<and> (\<forall>x. (AvcodecReceivePacket, x) \<in> set ext \<and> x < 0 \<and> x \<noteq> AVERROR EAGAIN
                 \<and> x \<noteq> AVERROR_EOF \<longrightarrow> ret = x)"
proof -
  obtain r0 w1 where c: "av eng (AvcodecSendFrame frame) w = (r0, w1)"
    by (cases "av eng (AvcodecSendFrame frame) w")
  show ?thesis
  proof (cases "r0 < 0")
    case True
    then have "w' = w1" "ret = r0" using assms c by (simp_all add: encode_and_write_def)
    then show ?thesis using av_log[OF c] by auto
  next
    case False
    then have "encode_loop eng r0 w1 = Some (ret, w')"
      using assms c by (simp add: encode_and_write_def)
    from encode_loop_log[OF this] av_log[OF c] False show ?thesis by auto
  qed
qed

lemma submitted_append: "submitted (a @ b) = submitted a @ submitted b"
  by (simp add: submitted_def)

lemma submitted_quiet:
  "\<forall>ev \<in> set ext. \<forall>f. fst ev \<noteq> AvcodecSendFrame (Some f) \<Longrightarrow> submitted ext = []"
  by (induction ext) (auto simp: submitted_def split: av_call.splits option.splits)

lemma submitted_loop_calls: "fst ` set ext \<subseteq> loop_calls \<Longrightarrow> submitted ext = []"
  by (rule submitted_quiet) (auto simp: loop_calls_def)

section \<open>Encoder: write failures\<close>




section \<open>Encoder: the timestamp counter\<close>

lemma write_call_pts:
  assumes call: "sf_encoder_write_pcm_frames eng (Some enc) e buf n outp = Some (r, enc', out, (e', log))"
    and n: "n < 2 ^ 31"
    and p: "- (2 ^ 63) \<le> next_pts enc" "next_pts enc + max 0 n < 2 ^ 63"
  shows "(accepted r \<longrightarrow> enc' = Some (enc\<lparr>next_pts := next_pts enc + n\<rparr>)
                         \<and> submitted log = [\<lparr>nb_samples = n, pts = next_pts enc\<rparr>] \<and> 0 < n)
       \<and> (\<not> accepted r \<longrightarrow> enc' = Some enc \<and> submitted log = [])"
proof (cases "\<not> buf \<or> \<not> outp \<or> n \<le> 0")
  case True
  then show ?thesis using call
    by (auto simp: sf_encoder_write_pcm_frames_def accepted_def submitted_def)
next
  case valid: False
  then have npos: "0 < n" by simp
  have nb: "c_int n = n" using npos n by (simp add: c_int_id)
  have np: "c_int64 (next_pts enc + n) = next_pts enc + n"
    using p npos by (intro c_int64_id) simp_all
  obtain fr w1 where c1: "av eng AvFrameAlloc (e, []) = (fr, w1)"
    by (cases "av eng AvFrameAlloc (e, [])")
  obtain u2 w2 where c2: "av eng AvChannelLayoutCopy w1 = (u2, w2)"
    by (cases "av eng AvChannelLayoutCopy w1")
  obtain b3 w3 where c3: "av eng (AvFrameGetBuffer n) w2 = (b3, w3)"
    by (cases "av eng (AvFrameGetBuffer n) w2")
  obtain u4 w4 where c4: "av eng AvFrameFree w3 = (u4, w4)"
    by (cases "av eng AvFrameFree w3")
  obtain u5 w5 where c5: "av eng (SwrConvertIn n n) w3 = (u5, w5)"
    by (cases "av eng (SwrConvertIn n n) w3")
  note l = av_log[OF c1] av_log[OF c2] av_log[OF c3] av_log[OF c4] av_log[OF c5]
  have fr0: "fr \<noteq> 0" using call valid c1 by (auto simp: sf_encoder_write_pcm_frames_def)
  show ?thesis
  proof (cases "b3 < 0")
    case True
    then have "r = SF_RESULT_ERROR_ALLOCATION_FAILED" "enc' = Some enc" "log = snd w4"
      using call valid c1 c2 c3 c4 fr0 nb
      by (auto simp: sf_encoder_write_pcm_frames_def Let_def)
    then show ?thesis using l by (simp add: accepted_def submitted_def)
  next
    case False
    let ?frame = "\<lparr>nb_samples = n, pts = next_pts enc\<rparr>"
    from call valid c1 c2 c3 c5 fr0 nb np False
    obtain ret w6 where ew: "encode_and_write eng (Some ?frame) w5 = Some (ret, w6)"
      by (auto simp: sf_encoder_write_pcm_frames_def Let_def split: option.splits)
    obtain u7 w7 where c7: "av eng AvFrameFree w6 = (u7, w7)"
      by (cases "av eng AvFrameFree w6")
    from call valid c1 c2 c3 c5 fr0 nb np False ew c7
    have res: "accepted r" "enc' = Some (enc\<lparr>next_pts := next_pts enc + n\<rparr>)" "log = snd w7"
      by (auto simp: sf_encoder_write_pcm_frames_def Let_def accepted_def split: if_splits)
    from encode_and_write_log[OF ew] obtain r0 ext where
      e: "snd w6 = snd w5 @ (AvcodecSendFrame (Some ?frame), r0) # ext" "fst ` set ext \<subseteq> loop_calls"
      by blast
    have "submitted log = [?frame]"
      using res(3) av_log[OF c7] e l submitted_loop_calls[OF e(2)]
      by (simp add: submitted_append) (simp add: submitted_def)
    then show ?thesis using res npos by simp
  qed
qed

text \<open>
  For every sequence of writes on one encoder with frame counts below \<open>2 ^ 31\<close>, a
  counter that starts at 0 or above and stays within 64 bits: the frames submitted to the
  codec are those of the accepted calls, in order and with the calls' frame counts; each
  has a positive length; they are stamped contiguously from the counter's initial
  value; and the counter ends at its initial value plus their total length. Calls
  rejected for their arguments or for a failed frame allocation submit nothing and leave
  the counter as it was; calls that fail later, in the codec or the muxer, count as
  accepted.
\<close>

lemma next_pts_advances_by_accepted_frames:
  assumes "write_all eng (Some enc) e calls = Some (rs, enc', (e', log))"
    and "\<forall>c \<in> set calls. snd c < 2 ^ 31"
    and "0 \<le> next_pts enc"
    and "next_pts enc + sum_list (map (\<lambda>c. max 0 (snd c)) calls) < 2 ^ 63"
  shows "\<exists>enc1. enc' = Some enc1
        \<and> length rs = length calls
        \<and> map nb_samples (submitted log) = map (\<lambda>p. snd (fst p)) (filter (\<lambda>p. accepted (snd p)) (zip calls rs))
        \<and> (\<forall>f \<in> set (submitted log). 0 < nb_samples f)
        \<and> contiguous (next_pts enc) (submitted log)
        \<and> next_pts enc1 = next_pts enc + sum_list (map nb_samples (submitted log))"
  using assms
proof (induction calls arbitrary: enc e rs enc' e' log)
  case Nil
  then show ?case by (auto simp: submitted_def)
next
  case (Cons c cs)
  from Cons.prems(1) obtain r encA out wA rs' wB where
    first: "sf_encoder_write_pcm_frames eng (Some enc) e (fst c) (snd c) True = Some (r, encA, out, wA)"
    and rest: "write_all eng encA (fst wA) cs = Some (rs', enc', wB)"
    and rs: "rs = r # rs'" and log: "log = snd wA @ snd wB" and e': "e' = fst wB"
    by (auto split: option.splits)
  have sum_nn: "0 \<le> sum_list (map (\<lambda>c. max 0 (snd c)) cs)"
    by (rule sum_list_nonneg) auto
  have bnd: "snd c < 2 ^ 31" "- (2 ^ 63) \<le> next_pts enc" "next_pts enc + max 0 (snd c) < 2 ^ 63"
    using Cons.prems(2-4) sum_nn by auto
  have first': "sf_encoder_write_pcm_frames eng (Some enc) e (fst c) (snd c) True
                  = Some (r, encA, out, (fst wA, snd wA))"
    using first by simp
  note step = write_call_pts[OF first' bnd]
  show ?case
  proof (cases "accepted r")
    case True
    with step have A: "encA = Some (enc\<lparr>next_pts := next_pts enc + snd c\<rparr>)"
      "submitted (snd wA) = [\<lparr>nb_samples = snd c, pts = next_pts enc\<rparr>]" "0 < snd c"
      by simp_all
    have rest': "write_all eng (Some (enc\<lparr>next_pts := next_pts enc + snd c\<rparr>)) (fst wA) cs
                   = Some (rs', enc', (fst wB, snd wB))"
      using rest A by simp
    have "\<exists>enc1. enc' = Some enc1
        \<and> length rs' = length cs
        \<and> map nb_samples (submitted (snd wB)) = map (\<lambda>p. snd (fst p)) (filter (\<lambda>p. accepted (snd p)) (zip cs rs'))
        \<and> (\<forall>f \<in> set (submitted (snd wB)). 0 < nb_samples f)
        \<and> contiguous (next_pts enc + snd c) (submitted (snd wB))
        \<and> next_pts enc1 = next_pts enc + snd c + sum_list (map nb_samples (submitted (snd wB)))"
      using Cons.IH[OF rest'] Cons.prems(2-4) A(3) by simp
    then show ?thesis using A True rs log by (auto simp: submitted_append)
  next
    case False
    with step have A: "encA = Some enc" "submitted (snd wA) = []" by simp_all
    have rest': "write_all eng (Some enc) (fst wA) cs = Some (rs', enc', (fst wB, snd wB))"
      using rest A by simp
    have "next_pts enc + sum_list (map (\<lambda>c. max 0 (snd c)) cs) < 2 ^ 63"
      using Cons.prems(4) by (simp add: max_def split: if_splits)
    from Cons.IH[OF rest' _ Cons.prems(3) this] Cons.prems(2)
    show ?thesis using A False rs log by (auto simp: submitted_append)
  qed
qed

lemma next_pts_advances_by_accepted_frames_example:
  "write_all esim_engine (Some (enc_ready 100)) (esim_open False False 15)
       [(True, 10), (False, 7), (True, 20)]
     = Some ([SF_RESULT_SUCCESS, SF_RESULT_ERROR_INVALID_ARGS, SF_RESULT_ENCODER_ERROR_WRITE_FAILED],
             Some (enc_ready 130), esim_w3)
   \<and> (10::int) < 2 ^ 31 \<and> (7::int) < 2 ^ 31 \<and> (20::int) < 2 ^ 31
   \<and> 0 \<le> next_pts (enc_ready 100)
   \<and> next_pts (enc_ready 100) + sum_list (map (\<lambda>c. max 0 (snd c)) [(True, 10), (False, 7), (True, 20::int)])
        < 2 ^ 63
   \<and> submitted (snd esim_w3) = [\<lparr>nb_samples = 10, pts = 100\<rparr>, \<lparr>nb_samples = 20, pts = 110\<rparr>]
   \<and> contiguous (next_pts (enc_ready 100)) (submitted (snd esim_w3))
   \<and> next_pts (enc_ready 130)
        = next_pts (enc_ready 100) + sum_list (map nb_samples (submitted (snd esim_w3)))"
proof -
  have run: "write_all esim_engine (Some (enc_ready 100)) (esim_open False False 15)
       [(True, 10), (False, 7), (True, 20)]
     = Some ([SF_RESULT_SUCCESS, SF_RESULT_ERROR_INVALID_ARGS, SF_RESULT_ENCODER_ERROR_WRITE_FAILED],
             Some (enc_ready 130), (fst esim_w3, snd esim_w3))"
    by (simp add: sf_encoder_write_pcm_frames_def encode_and_write_def encode_loop.simps
        enc_ready_def esim_w3_def esim_eval)
  have h2: "\<forall>c \<in> set [(True, 10), (False, 7), (True, 20)]. snd c < (2::int) ^ 31" by simp
  have h3: "0 \<le> next_pts (enc_ready 100)" by (simp add: enc_ready_def)
  have h4: "next_pts (enc_ready 100)
      + sum_list (map (\<lambda>c. max 0 (snd c)) [(True, 10), (False, 7), (True, 20::int)]) < 2 ^ 63"
    by (simp add: enc_ready_def)
  have sub: "submitted (snd esim_w3) = [\<lparr>nb_samples = 10, pts = 100\<rparr>, \<lparr>nb_samples = 20, pts = 110\<rparr>]"
    by (simp add: submitted_def esim_w3_def)
  have run': "write_all esim_engine (Some (enc_ready 100)) (esim_open False False 15)
       [(True, 10), (False, 7), (True, 20)]
     = Some ([SF_RESULT_SUCCESS, SF_RESULT_ERROR_INVALID_ARGS, SF_RESULT_ENCODER_ERROR_WRITE_FAILED],
             Some (enc_ready 130), esim_w3)"
    using run by simp
  note t = next_pts_advances_by_accepted_frames[OF run h2 h3 h4]
  have c1: "contiguous (next_pts (enc_ready 100)) (submitted (snd esim_w3))"
    using t by blast
  have c2: "next_pts (enc_ready 130)
        = next_pts (enc_ready 100) + sum_list (map nb_samples (submitted (snd esim_w3)))"
    using t by auto
  show ?thesis
    using run' h3 h4 sub c1 c2 by simp
qed

text \<open>
  C3 at a request of \<open>2 ^ 32 + 5\<close> frames that succeeds, followed by a request of 10
  frames. The first frame is sized \<^verbatim>\<open>(int)frameCount\<close>, which is 5, and stamped 100;
  the call returns \<open>SF_RESULT_SUCCESS\<close> and stores \<open>frameCount\<close>, 4294967301, to
  \<^verbatim>\<open>*out_frames_written\<close>, and the counter has moved from 100 to 105, not by
  \<open>frameCount\<close>. The frame of the second call is stamped 105, inside the span of
  4294967301 frames that the first call reported as written.
\<close>

theorem successful_write_advances_by_truncated_count:
  "sf_encoder_write_pcm_frames esim_engine (Some (enc_ready 100)) (esim_open False False 1000)
     True 4294967301 True
     = Some (SF_RESULT_SUCCESS, Some (enc_ready 105), Some 4294967301,
         ((esim_open False False 995)\<lparr>es_packet := 5\<rparr>,
          [(AvFrameAlloc, 1), (AvChannelLayoutCopy, 0), (AvFrameGetBuffer 5, 0),
           (SwrConvertIn 5 5, 0),
           (AvcodecSendFrame (Some \<lparr>nb_samples = 5, pts = 100\<rparr>), 0),
           (AvcodecReceivePacket, 0), (AvPacketRescaleTs, 0),
           (PacketSetStreamIndex, 0), (AvInterleavedWriteFrame, 0),
           (AvPacketUnref, 0), (AvcodecReceivePacket, AVERROR EAGAIN), (AvFrameFree, 0)]))
   \<and> sf_encoder_write_pcm_frames esim_engine (Some (enc_ready 105))
        ((esim_open False False 995)\<lparr>es_packet := 5\<rparr>) True 10 True
     = Some (SF_RESULT_SUCCESS, Some (enc_ready 115), Some 10,
         ((esim_open False False 985)\<lparr>es_packet := 10\<rparr>,
          [(AvFrameAlloc, 1), (AvChannelLayoutCopy, 0), (AvFrameGetBuffer 10, 0),
           (SwrConvertIn 10 10, 0),
           (AvcodecSendFrame (Some \<lparr>nb_samples = 10, pts = 105\<rparr>), 0),
           (AvcodecReceivePacket, 0), (AvPacketRescaleTs, 0),
           (PacketSetStreamIndex, 0), (AvInterleavedWriteFrame, 0),
           (AvPacketUnref, 0), (AvcodecReceivePacket, AVERROR EAGAIN), (AvFrameFree, 0)]))
   \<and> next_pts (enc_ready 105) \<noteq> next_pts (enc_ready 100) + 4294967301"
  by (simp add: sf_encoder_write_pcm_frames_def encode_and_write_def encode_loop.simps
      enc_ready_def esim_eval)

theorem successful_write_advances_by_truncated_count_witness:
  "\<not> (\<not> True \<or> \<not> True \<or> (4294967301::int) \<le> 0)
   \<and> map_option (\<lambda>res. (fst res, fst (snd res), fst (snd (snd res))))
        (sf_encoder_write_pcm_frames esim_engine (Some (enc_ready 100)) (esim_open False False 1000)
           True 4294967301 True)
       = Some (SF_RESULT_SUCCESS, Some (enc_ready 105), Some 4294967301)"
  using successful_write_advances_by_truncated_count by simp

text \<open>
  C10 at a request of \<open>2 ^ 32 + 5\<close> frames on a codec that rejects the frame. The frame
  is sized \<^verbatim>\<open>(int)frameCount\<close>, which is 5; the call returns
  \<open>SF_RESULT_ENCODER_ERROR_ENCODING_FAILED\<close> with zero frames written, and the counter
  has moved from 100 to 105, not by \<open>frameCount\<close>.
\<close>

theorem failed_write_advances_by_truncated_count:
  "sf_encoder_write_pcm_frames esim_engine (Some (enc_ready 100)) (esim_open False True 1000)
     True 4294967301 True
     = Some (SF_RESULT_ENCODER_ERROR_ENCODING_FAILED, Some (enc_ready 105), Some 0,
         (esim_open False True 1000,
          [(AvFrameAlloc, 1), (AvChannelLayoutCopy, 0), (AvFrameGetBuffer 5, 0),
           (SwrConvertIn 5 5, 0),
           (AvcodecSendFrame (Some \<lparr>nb_samples = 5, pts = 100\<rparr>), AVERROR_INVALIDDATA),
           (AvFrameFree, 0)]))
   \<and> next_pts (enc_ready 105) \<noteq> next_pts (enc_ready 100) + 4294967301"
  by (simp add: sf_encoder_write_pcm_frames_def encode_and_write_def encode_loop.simps
      enc_ready_def esim_eval)

theorem failed_write_advances_by_truncated_count_witness:
  "\<not> (\<not> True \<or> \<not> True \<or> (4294967301::int) \<le> 0)
   \<and> map_option (\<lambda>res. (fst res, fst (snd res)))
        (sf_encoder_write_pcm_frames esim_engine (Some (enc_ready 100)) (esim_open False True 1000)
           True 4294967301 True)
       = Some (SF_RESULT_ENCODER_ERROR_ENCODING_FAILED, Some (enc_ready 105))"
  using failed_write_advances_by_truncated_count by simp

section \<open>Encoder: header and trailer\<close>

lemma init_success_calls:
  assumes "sf_encoder_init eng encoder name fmt ch rate e = (SF_RESULT_SUCCESS, enc', w)"
  shows "count_list (calls_of w) AvformatWriteHeader = 1
       \<and> AvWriteTrailer \<notin> set (calls_of w)
       \<and> AvcodecSendFrame None \<notin> set (calls_of w)
       \<and> \<not> list_ex is_pcm (calls_of w)
       \<and> (\<exists>enc. enc' = Some enc)"
  using assms
  by (auto simp: sf_encoder_init_def Let_def av_def calls_of_def is_pcm_def
           split: option.splits prod.splits if_splits)

lemma write_call_calls:
  assumes "sf_encoder_write_pcm_frames eng encoder e buf n outp = Some (r, enc', out, w)"
  shows "set (calls_of w) \<inter> markers = {} \<and> (encoder \<noteq> None \<longrightarrow> enc' \<noteq> None)"
proof (cases "encoder = None \<or> \<not> buf \<or> \<not> outp \<or> n \<le> 0")
  case True
  then show ?thesis using assms
    by (auto simp: sf_encoder_write_pcm_frames_def calls_of_def split: option.splits)
next
  case valid: False
  then obtain enc where enc: "encoder = Some enc" by auto
  obtain fr w1 where c1: "av eng AvFrameAlloc (e, []) = (fr, w1)"
    by (cases "av eng AvFrameAlloc (e, [])")
  obtain u2 w2 where c2: "av eng AvChannelLayoutCopy w1 = (u2, w2)"
    by (cases "av eng AvChannelLayoutCopy w1")
  obtain b3 w3 where c3: "av eng (AvFrameGetBuffer (c_int n)) w2 = (b3, w3)"
    by (cases "av eng (AvFrameGetBuffer (c_int n)) w2")
  obtain u4 w4 where c4: "av eng AvFrameFree w3 = (u4, w4)"
    by (cases "av eng AvFrameFree w3")
  obtain u5 w5 where c5: "av eng (SwrConvertIn (c_int n) (c_int n)) w3 = (u5, w5)"
    by (cases "av eng (SwrConvertIn (c_int n) (c_int n)) w3")
  note l = av_log[OF c1] av_log[OF c2] av_log[OF c3] av_log[OF c4] av_log[OF c5]
  have fr0: "fr \<noteq> 0" using assms valid enc c1 by (auto simp: sf_encoder_write_pcm_frames_def)
  show ?thesis
  proof (cases "b3 < 0")
    case True
    then have "enc' = Some enc" "w = w4"
      using assms valid enc c1 c2 c3 c4 fr0
      by (auto simp: sf_encoder_write_pcm_frames_def Let_def)
    then show ?thesis using l by (simp add: calls_of_def markers_def)
  next
    case False
    let ?frame = "\<lparr>nb_samples = c_int n, pts = next_pts enc\<rparr>"
    from assms valid enc c1 c2 c3 c5 fr0 False
    obtain ret w6 where ew: "encode_and_write eng (Some ?frame) w5 = Some (ret, w6)"
      by (auto simp: sf_encoder_write_pcm_frames_def Let_def split: option.splits)
    obtain u7 w7 where c7: "av eng AvFrameFree w6 = (u7, w7)"
      by (cases "av eng AvFrameFree w6")
    from assms valid enc c1 c2 c3 c5 fr0 False ew c7
    have res: "enc' \<noteq> None" "w = w7"
      by (auto simp: sf_encoder_write_pcm_frames_def Let_def split: if_splits)
    from encode_and_write_log[OF ew] obtain r0 ext where
      e: "snd w6 = snd w5 @ (AvcodecSendFrame (Some ?frame), r0) # ext" "fst ` set ext \<subseteq> loop_calls"
      by blast
    have "set (calls_of w) \<inter> markers = {}"
      using res(2) av_log[OF c7] e l
      by (auto simp: calls_of_def markers_def loop_calls_def)
    then show ?thesis using res by simp
  qed
qed

lemma write_all_calls:
  "write_all eng encoder e calls = Some (rs, enc', w) \<Longrightarrow>
   set (calls_of w) \<inter> markers = {} \<and> (encoder \<noteq> None \<longrightarrow> enc' \<noteq> None) \<and> length rs = length calls"
proof (induction calls arbitrary: encoder e rs enc' w)
  case Nil
  then show ?case by (auto simp: calls_of_def)
next
  case (Cons c cs)
  from Cons.prems obtain r encA out wA rs' wB where
    first: "sf_encoder_write_pcm_frames eng encoder e (fst c) (snd c) True = Some (r, encA, out, wA)"
    and rest: "write_all eng encA (fst wA) cs = Some (rs', enc', wB)"
    and rs: "rs = r # rs'" and w: "w = (fst wB, snd wA @ snd wB)"
    by (auto split: option.splits)
  from write_call_calls[OF first] Cons.IH[OF rest] rs w show ?case
    by (auto simp: calls_of_def)
qed

lemma drained_loop_calls: "drained ext \<Longrightarrow> fst ` set ext \<subseteq> loop_calls"
  by (induction ext rule: drained.induct) (auto simp: loop_calls_def split: if_splits)

lemma encode_loop_drained:
  "encode_loop eng ret w = Some res \<Longrightarrow> 0 \<le> ret \<Longrightarrow>
   \<exists>ext. snd (snd res) = snd w @ ext \<and> drained ext"
proof (induction eng ret w res rule: encode_loop.raw_induct[rotated 1, consumes 1])
  case (1 el eng ret w res)
  note IH = "1.IH" and body = "1.hyps" and ge = "1.prems"
  obtain r1 w1 where c1: "av eng AvcodecReceivePacket w = (r1, w1)"
    by (cases "av eng AvcodecReceivePacket w")
  obtain u2 w2 where c2: "av eng AvPacketRescaleTs w1 = (u2, w2)"
    by (cases "av eng AvPacketRescaleTs w1")
  obtain u3 w3 where c3: "av eng PacketSetStreamIndex w2 = (u3, w3)"
    by (cases "av eng PacketSetStreamIndex w2")
  obtain wr w4 where c4: "av eng AvInterleavedWriteFrame w3 = (wr, w4)"
    by (cases "av eng AvInterleavedWriteFrame w3")
  obtain u5 w5 where c5: "av eng AvPacketUnref w4 = (u5, w5)"
    by (cases "av eng AvPacketUnref w4")
  note logs = av_log[OF c1] av_log[OF c2] av_log[OF c3] av_log[OF c4] av_log[OF c5]
  have l5: "snd w5 = snd w @ [(AvcodecReceivePacket, r1), (AvPacketRescaleTs, u2),
              (PacketSetStreamIndex, u3), (AvInterleavedWriteFrame, wr), (AvPacketUnref, u5)]"
    using logs by simp
  have neg: "AVERROR EAGAIN < 0" "AVERROR_EOF < 0" by (simp_all add: av_codes)
  consider (stop) "r1 = AVERROR EAGAIN \<or> r1 = AVERROR_EOF" | (err) "\<not> (r1 = AVERROR EAGAIN \<or> r1 = AVERROR_EOF)" "r1 < 0"
    | (wfail) "\<not> (r1 = AVERROR EAGAIN \<or> r1 = AVERROR_EOF)" "\<not> r1 < 0" "wr < 0"
    | (again) "\<not> (r1 = AVERROR EAGAIN \<or> r1 = AVERROR_EOF)" "\<not> r1 < 0" "\<not> wr < 0"
    by blast
  then show ?case
  proof cases
    case stop
    then have "res = (0, w1)" using body ge c1 by (auto simp: Let_def)
    then show ?thesis using logs(1) stop neg by auto
  next
    case err
    then have "res = (r1, w1)" using body ge c1 by (auto simp: Let_def)
    then show ?thesis using logs(1) err by auto
  next
    case wfail
    then have "res = (wr, w5)" using body ge c1 c2 c3 c4 c5 by (auto simp: Let_def)
    then show ?thesis using l5 wfail by auto
  next
    case again
    then have "el eng r1 w5 = Some res" using body ge c1 c2 c3 c4 c5 by (auto simp: Let_def)
    from IH[OF this] again obtain ext where
      e: "snd (snd res) = snd w5 @ ext" "drained ext"
      by auto
    show ?thesis
      apply (rule exI[where x="[(AvcodecReceivePacket, r1), (AvPacketRescaleTs, u2),
              (PacketSetStreamIndex, u3), (AvInterleavedWriteFrame, wr), (AvPacketUnref, u5)] @ ext"])
      using e l5 again by simp
  qed
qed

lemma free_log:
  assumes "sf_encoder_free eng (Some enc) e = Some w"
  shows "\<exists>r0 ext t rest. snd w = (AvcodecSendFrame None, r0) # ext @ (AvWriteTrailer, t) # rest
           \<and> (if r0 < 0 then ext = [] else drained ext)
           \<and> fst ` set rest \<subseteq> cleanup_calls"
proof -
  from assms obtain ret w1 where ew: "encode_and_write eng None (e, []) = Some (ret, w1)"
    by (auto simp: sf_encoder_free_def split: option.splits)
  obtain r0 w0 where c: "av eng (AvcodecSendFrame None) (e, []) = (r0, w0)"
    by (cases "av eng (AvcodecSendFrame None) (e, [])")
  have l0: "snd w0 = [(AvcodecSendFrame None, r0)]" using av_log[OF c] by simp
  have "\<exists>ext. snd w1 = (AvcodecSendFrame None, r0) # ext \<and> (if r0 < 0 then ext = [] else drained ext)"
  proof (cases "r0 < 0")
    case True
    then have "w1 = w0" using ew c by (simp add: encode_and_write_def)
    then show ?thesis using l0 True by simp
  next
    case False
    then have "encode_loop eng r0 w0 = Some (ret, w1)"
      using ew c by (simp add: encode_and_write_def)
    from encode_loop_drained[OF this] False l0 show ?thesis by auto
  qed
  then obtain ext where e: "snd w1 = (AvcodecSendFrame None, r0) # ext"
    "if r0 < 0 then ext = [] else drained ext" by blast
  have "\<exists>t rest. snd w = snd w1 @ (AvWriteTrailer, t) # rest \<and> fst ` set rest \<subseteq> cleanup_calls"
    using assms ew
    by (auto simp: sf_encoder_free_def Let_def av_def cleanup_calls_def
             split: prod.splits if_splits)
  then obtain t rest where r: "snd w = snd w1 @ (AvWriteTrailer, t) # rest"
    "fst ` set rest \<subseteq> cleanup_calls"
    by blast
  show ?thesis
    apply (rule exI[where x=r0], rule exI[where x=ext], rule exI[where x=t], rule exI[where x=rest])
    using r e by simp
qed

lemma encode_loop_returns:
  assumes "finite_codec eng m"
  shows "\<exists>res. encode_loop eng ret w = Some res"
proof (induction "m (fst w)" arbitrary: ret w rule: less_induct)
  case less
  obtain r1 w1 where c1: "av eng AvcodecReceivePacket w = (r1, w1)"
    by (cases "av eng AvcodecReceivePacket w")
  obtain u2 w2 where c2: "av eng AvPacketRescaleTs w1 = (u2, w2)"
    by (cases "av eng AvPacketRescaleTs w1")
  obtain u3 w3 where c3: "av eng PacketSetStreamIndex w2 = (u3, w3)"
    by (cases "av eng PacketSetStreamIndex w2")
  obtain wr w4 where c4: "av eng AvInterleavedWriteFrame w3 = (wr, w4)"
    by (cases "av eng AvInterleavedWriteFrame w3")
  obtain u5 w5 where c5: "av eng AvPacketUnref w4 = (u5, w5)"
    by (cases "av eng AvPacketUnref w4")
  have st: "\<And>c w r w'. av eng c w = (r, w') \<Longrightarrow> r = fst (av_exec eng c (fst w)) \<and> fst w' = snd (av_exec eng c (fst w))"
    by (auto simp: av_def split: prod.splits)
  have dec: "0 \<le> r1 \<Longrightarrow> m (fst w5) < m (fst w)"
  proof -
    assume "0 \<le> r1"
    then have "m (fst w1) < m (fst w)" using st[OF c1] assms by (simp add: finite_codec_def)
    moreover have "m (fst w2) \<le> m (fst w1)" using st[OF c2] assms by (simp add: finite_codec_def)
    moreover have "m (fst w3) \<le> m (fst w2)" using st[OF c3] assms by (simp add: finite_codec_def)
    moreover have "m (fst w4) \<le> m (fst w3)" using st[OF c4] assms by (simp add: finite_codec_def)
    moreover have "m (fst w5) \<le> m (fst w4)" using st[OF c5] assms by (simp add: finite_codec_def)
    ultimately show ?thesis by linarith
  qed
  show ?case
  proof (cases "0 \<le> ret \<and> \<not> (r1 = AVERROR EAGAIN \<or> r1 = AVERROR_EOF) \<and> \<not> r1 < 0 \<and> \<not> wr < 0")
    case True
    then have "encode_loop eng ret w = encode_loop eng r1 w5"
      using c1 c2 c3 c4 c5 by (subst encode_loop.simps) (simp add: Let_def)
    moreover have "\<exists>res. encode_loop eng r1 w5 = Some res"
      using less[OF dec] True by simp
    ultimately show ?thesis by simp
  next
    case False
    then show ?thesis
      using c1 c2 c3 c4 c5 by (subst encode_loop.simps) (auto simp add: Let_def)
  qed
qed

lemma free_returns:
  assumes "finite_codec eng m"
  shows "\<exists>w. sf_encoder_free eng encoder e = Some w"
proof (cases encoder)
  case None
  then show ?thesis by (simp add: sf_encoder_free_def)
next
  case (Some enc)
  have "\<exists>res. encode_and_write eng None (e, []) = Some res"
    using encode_loop_returns[OF assms]
    by (auto simp: encode_and_write_def split: prod.splits)
  then show ?thesis using Some
    by (auto simp: sf_encoder_free_def Let_def split: prod.splits)
qed

lemma esim_finite_codec: "finite_codec esim_engine (\<lambda>s. length (es_ready s))"
  by (auto simp: finite_codec_def esim_engine_def esim_mux_def av_codes
           split: list.splits prod.splits)

text \<open>
  C6. In the life of an encoder whose initialisation succeeded, whatever the writes
  return. \<^verbatim>\<open>sf_encoder_free\<close> returns on every engine whose codec runs out of packets.
  Whenever it returns, on any engine: over initialisation, writes and free together the
  header is written exactly once, and that is during \<^verbatim>\<open>sf_encoder_init\<close>, which submits
  no PCM frame; the trailer is written exactly once, and that is during
  \<^verbatim>\<open>sf_encoder_free\<close>; the \<^verbatim>\<open>NULL\<close> frame is submitted exactly once, as the first call
  of \<^verbatim>\<open>sf_encoder_free\<close>, and no PCM frame is submitted after it. Between the \<^verbatim>\<open>NULL\<close>
  frame and the trailer \<^verbatim>\<open>sf_encoder_free\<close> flushes the codec: unless the codec refused
  the \<^verbatim>\<open>NULL\<close> frame, it receives packets and hands each one to the muxer until the
  codec has none left or a step fails; then it writes the trailer, and after the
  trailer it only releases the engine's objects.
\<close>

theorem header_once_trailer_once:
  assumes init: "sf_encoder_init eng (Some sf_encoder_create) name fmt ch rate e = (SF_RESULT_SUCCESS, enc0, w0)"
    and writes: "write_all eng enc0 (fst w0) calls = Some (rs, enc1, w1)"
  shows "(finite_codec eng m \<longrightarrow> (\<exists>w2. sf_encoder_free eng enc1 (fst w1) = Some w2))
       \<and> (\<forall>w2. sf_encoder_free eng enc1 (fst w1) = Some w2 \<longrightarrow>
            count_list (calls_of w0 @ calls_of w1 @ calls_of w2) AvformatWriteHeader = 1
          \<and> AvformatWriteHeader \<in> set (calls_of w0)
          \<and> \<not> list_ex is_pcm (calls_of w0)
          \<and> count_list (calls_of w0 @ calls_of w1 @ calls_of w2) AvWriteTrailer = 1
          \<and> AvWriteTrailer \<in> set (calls_of w2)
          \<and> count_list (calls_of w0 @ calls_of w1 @ calls_of w2) (AvcodecSendFrame None) = 1
          \<and> hd (calls_of w2) = AvcodecSendFrame None
          \<and> \<not> list_ex is_pcm (calls_of w2)
          \<and> length rs = length calls
          \<and> (\<exists>r0 ext t rest.
                snd w2 = (AvcodecSendFrame None, r0) # ext @ (AvWriteTrailer, t) # rest
                \<and> (if r0 < 0 then ext = [] else drained ext)
                \<and> fst ` set rest \<subseteq> cleanup_calls))"
proof (intro conjI impI allI)
  assume "finite_codec eng m"
  then show "\<exists>w2. sf_encoder_free eng enc1 (fst w1) = Some w2" by (rule free_returns)
next
  fix w2
  assume free: "sf_encoder_free eng enc1 (fst w1) = Some w2"
  note i = init_success_calls[OF init]
  then obtain e0 where e0: "enc0 = Some e0" by blast
  note wa = write_all_calls[OF writes]
  then obtain e1 where e1: "enc1 = Some e1" using e0 by auto
  from free_log[OF free[unfolded e1]] obtain r0 ext t rest where
    fl: "snd w2 = (AvcodecSendFrame None, r0) # ext @ (AvWriteTrailer, t) # rest"
       "if r0 < 0 then ext = [] else drained ext" "fst ` set rest \<subseteq> cleanup_calls"
    by blast
  have f: "calls_of w2 = AvcodecSendFrame None # map fst ext @ AvWriteTrailer # map fst rest"
    using fl(1) by (simp add: calls_of_def)
  have extl: "set (map fst ext) \<subseteq> loop_calls"
    using fl(2) drained_loop_calls[of ext] by (cases "r0 < 0") auto
  have restl: "set (map fst rest) \<subseteq> cleanup_calls" using fl(3) by simp
  have nohdr1: "AvformatWriteHeader \<notin> set (calls_of w1)" "AvWriteTrailer \<notin> set (calls_of w1)"
    "AvcodecSendFrame None \<notin> set (calls_of w1)"
    using wa by (auto simp: markers_def)
  have ext: "AvformatWriteHeader \<notin> set (map fst ext)" "AvWriteTrailer \<notin> set (map fst ext)"
    "AvcodecSendFrame None \<notin> set (map fst ext)" "\<not> list_ex is_pcm (map fst ext)"
    using extl by (auto simp: loop_calls_def is_pcm_def list_ex_iff)
  have rest: "AvformatWriteHeader \<notin> set (map fst rest)" "AvWriteTrailer \<notin> set (map fst rest)"
    "AvcodecSendFrame None \<notin> set (map fst rest)" "\<not> list_ex is_pcm (map fst rest)"
    using restl by (auto simp: cleanup_calls_def is_pcm_def list_ex_iff)
  have hdr_in: "AvformatWriteHeader \<in> set (calls_of w0)"
    using i count_notin[of AvformatWriteHeader "calls_of w0"] by auto
  have old: "count_list (calls_of w0 @ calls_of w1 @ calls_of w2) AvformatWriteHeader = 1
       \<and> AvformatWriteHeader \<in> set (calls_of w0)
       \<and> \<not> list_ex is_pcm (calls_of w0)
       \<and> count_list (calls_of w0 @ calls_of w1 @ calls_of w2) AvWriteTrailer = 1
       \<and> AvWriteTrailer \<in> set (calls_of w2)
       \<and> count_list (calls_of w0 @ calls_of w1 @ calls_of w2) (AvcodecSendFrame None) = 1
       \<and> hd (calls_of w2) = AvcodecSendFrame None
       \<and> \<not> list_ex is_pcm (calls_of w2)
       \<and> length rs = length calls"
    using i wa nohdr1 ext rest hdr_in f
    by (simp add: is_pcm_def)
  from old show "count_list (calls_of w0 @ calls_of w1 @ calls_of w2) AvformatWriteHeader = 1"
    "AvformatWriteHeader \<in> set (calls_of w0)"
    "\<not> list_ex is_pcm (calls_of w0)"
    "count_list (calls_of w0 @ calls_of w1 @ calls_of w2) AvWriteTrailer = 1"
    "AvWriteTrailer \<in> set (calls_of w2)"
    "count_list (calls_of w0 @ calls_of w1 @ calls_of w2) (AvcodecSendFrame None) = 1"
    "hd (calls_of w2) = AvcodecSendFrame None"
    "\<not> list_ex is_pcm (calls_of w2)"
    "length rs = length calls"
    by simp_all
  from fl show "\<exists>r0 ext t rest.
                snd w2 = (AvcodecSendFrame None, r0) # ext @ (AvWriteTrailer, t) # rest
                \<and> (if r0 < 0 then ext = [] else drained ext)
                \<and> fst ` set rest \<subseteq> cleanup_calls"
    by blast
qed

theorem header_once_trailer_once_witness:
  "sf_encoder_init esim_engine (Some sf_encoder_create) ''wav'' SF_SAMPLE_FORMAT_S16 2 44100
     (esim_open True False 1000) = (SF_RESULT_SUCCESS, Some (enc_ready 0), esim_w0)
   \<and> write_all esim_engine (Some (enc_ready 0)) (fst esim_w0) [(True, 10)]
       = Some ([SF_RESULT_SUCCESS], Some (enc_ready 10), esim_w1)
   \<and> finite_codec esim_engine (\<lambda>s. length (es_ready s))
   \<and> sf_encoder_free esim_engine (Some (enc_ready 10)) (fst esim_w1) = Some esim_w2
   \<and> count_list (calls_of esim_w0 @ calls_of esim_w1 @ calls_of esim_w2) AvformatWriteHeader = 1
   \<and> count_list (calls_of esim_w0 @ calls_of esim_w1 @ calls_of esim_w2) AvWriteTrailer = 1
   \<and> hd (calls_of esim_w2) = AvcodecSendFrame None
   \<and> drained [(AvcodecReceivePacket, 0), (AvPacketRescaleTs, 0), (PacketSetStreamIndex, 0),
               (AvInterleavedWriteFrame, 0), (AvPacketUnref, 0),
               (AvcodecReceivePacket, AVERROR_EOF)]"
proof -
  have i: "sf_encoder_init esim_engine (Some sf_encoder_create) ''wav'' SF_SAMPLE_FORMAT_S16 2 44100
     (esim_open True False 1000) = (SF_RESULT_SUCCESS, Some (enc_ready 0), esim_w0)"
    by (simp add: sf_encoder_init_def sf_encoder_create_def enc_ready_def esim_w0_def esim_eval)
  have w: "write_all esim_engine (Some (enc_ready 0)) (fst esim_w0) [(True, 10)]
       = Some ([SF_RESULT_SUCCESS], Some (enc_ready 10), esim_w1)"
    by (simp add: sf_encoder_write_pcm_frames_def encode_and_write_def encode_loop.simps
        enc_ready_def esim_w0_def esim_w1_def esim_eval)
  have f: "sf_encoder_free esim_engine (Some (enc_ready 10)) (fst esim_w1) = Some esim_w2"
    by (simp add: sf_encoder_free_def encode_and_write_def encode_loop.simps
        enc_ready_def esim_w1_def esim_w2_def esim_eval)
  have d: "drained [(AvcodecReceivePacket, 0), (AvPacketRescaleTs, 0), (PacketSetStreamIndex, 0),
               (AvInterleavedWriteFrame, 0), (AvPacketUnref, 0),
               (AvcodecReceivePacket, AVERROR_EOF)]"
    by (simp add: av_codes)
  note t = header_once_trailer_once[OF i w, of "\<lambda>s. length (es_ready s)"]
  have "count_list (calls_of esim_w0 @ calls_of esim_w1 @ calls_of esim_w2) AvformatWriteHeader = 1
      \<and> count_list (calls_of esim_w0 @ calls_of esim_w1 @ calls_of esim_w2) AvWriteTrailer = 1
      \<and> hd (calls_of esim_w2) = AvcodecSendFrame None"
    using t f by blast
  then show ?thesis using i w f d esim_finite_codec by simp
qed

end
